theory Spec2Isabelle
  imports Complex_Main "HOL-Library.Log_Nat"
begin

section \<open>Tile-grid physics of the platformer: Player, NPC and the solid grid\<close>

text \<open>
  The development embeds the physics code of \<^verbatim>\<open>player.py\<close> and \<^verbatim>\<open>npc.py\<close> and the two
  grid builders of \<^verbatim>\<open>map_utils.py\<close> and \<^verbatim>\<open>fornewmap.py\<close>.

  Numbers. A Python \<^verbatim>\<open>float\<close> is a rational number, and every sum, difference and product
  that \<^verbatim>\<open>update\<close> takes of such numbers (gravity, position, the timers of the dash) is
  rounded to the nearest binary64 number by \<open>fl\<close> below. The loops of the collision passes
  do not round: they floor-divide by 32, truncate to the integer rectangle of pygame,
  compare with 0 and assign integers. The sum \<open>y + height - 928\<close> in the check of the ground
  level is taken exactly, as binary64 does for a body of height from 0 to 400 (those of
  the game are 24 and 64 high). Python's \<^verbatim>\<open>int\<close> is \<^typ>\<open>int\<close>. Infinite and NaN coordinates
  have no counterpart.

  Names. The attributes \<^verbatim>\<open>self.x\<close> and \<^verbatim>\<open>self.y\<close> are the fields \<open>pos_x\<close> and \<open>pos_y\<close>, so that
  \<open>x\<close> and \<open>y\<close> stay free for the loop variables of the source. Sound, sprites, animation,
  health and knives never touch a physics attribute and are left out.
\<close>

subsection \<open>Python lists and loops\<close>

datatype error = IndexError

text \<open>\<^verbatim>\<open>xs[i]\<close>: a negative index counts from the end, anything out of range raises.\<close>

definition py_index :: "'a list \<Rightarrow> int \<Rightarrow> error + 'a" where
  "py_index xs i =
     (if 0 \<le> i \<and> i < int (length xs) then Inr (xs ! nat i)
      else if i < 0 \<and> - int (length xs) \<le> i then Inr (xs ! nat (int (length xs) + i))
      else Inl IndexError)"

text \<open>\<^verbatim>\<open>range(a, b)\<close>, empty when \<open>b \<le> a\<close>.\<close>

definition py_range :: "int \<Rightarrow> int \<Rightarrow> int list" where
  "py_range a b = [a..b - 1]"

text \<open>A \<^verbatim>\<open>for\<close> loop whose body may raise: the first exception ends the loop.\<close>

fun for_each :: "'a list \<Rightarrow> ('a \<Rightarrow> 's \<Rightarrow> error + 's) \<Rightarrow> 's \<Rightarrow> error + 's" where
  "for_each [] body s = Inr s"
| "for_each (a # as) body s =
     (case body a s of Inl e \<Rightarrow> Inl e | Inr s' \<Rightarrow> for_each as body s')"

subsection \<open>Floating-point arithmetic\<close>

text \<open>
  Python's \<^verbatim>\<open>float\<close> is IEEE 754 binary64: a result is rounded to the nearest number with a
  significand of 53 bits, a tie going to the even significand. \<open>binade q\<close> is the exponent
  \<open>e\<close> with \<open>2 ^ e <= q < 2 ^ (e + 1)\<close> for a positive \<open>q\<close>, found from the bit lengths of
  numerator and denominator; the numbers of that binade are the multiples of
  \<open>2 ^ (e - 52)\<close>. Overflow to infinity and the coarser spacing of subnormal numbers (below
  \<open>2 ^ -1022\<close>) are not modelled.
\<close>

definition round_even :: "rat \<Rightarrow> int" where
  "round_even x =
     (let f = \<lfloor>x\<rfloor>; d = x - of_int f
      in if d < 1 / 2 then f else if 1 / 2 < d then f + 1 else if even f then f else f + 1)"

definition binade :: "rat \<Rightarrow> int" where
  "binade q =
     (let e = bitlen (fst (quotient_of q)) - bitlen (snd (quotient_of q))
      in if 2 powi e \<le> q then e else e - 1)"

definition fl :: "rat \<Rightarrow> rat" where
  "fl q =
     (if q = 0 then 0
      else let ulp = 2 powi (binade \<bar>q\<bar> - 52)
           in sgn q * (of_int (round_even (\<bar>q\<bar> / ulp)) * ulp))"

subsection \<open>pygame.Rect\<close>

text \<open>
  pygame stores a rectangle as four C integers; a float argument is cast, which truncates
  towards zero (coordinates beyond the range of a C integer are not modelled). \<^verbatim>\<open>colliderect\<close> is pygame's \<^verbatim>\<open>_pg_do_rects_intersect\<close>: rectangles of
  width or height 0 collide with nothing, and the overlap test is strict on all four sides.
\<close>

record rect =
  r_left :: int
  r_top :: int
  r_w :: int
  r_h :: int

definition r_right :: "rect \<Rightarrow> int" where
  "r_right r = r_left r + r_w r"

definition r_bottom :: "rect \<Rightarrow> int" where
  "r_bottom r = r_top r + r_h r"

definition c_int :: "rat \<Rightarrow> int" where
  "c_int q = (if 0 \<le> q then \<lfloor>q\<rfloor> else \<lceil>q\<rceil>)"

definition Rect :: "rat \<Rightarrow> rat \<Rightarrow> int \<Rightarrow> int \<Rightarrow> rect" where
  "Rect a b c d = \<lparr>r_left = c_int a, r_top = c_int b, r_w = c, r_h = d\<rparr>"

definition colliderect :: "rect \<Rightarrow> rect \<Rightarrow> bool" where
  "colliderect A B =
     (if r_w A = 0 \<or> r_h A = 0 \<or> r_w B = 0 \<or> r_h B = 0 then False
      else min (r_left A) (r_left A + r_w A) < max (r_left B) (r_left B + r_w B)
         \<and> min (r_top A) (r_top A + r_h A) < max (r_top B) (r_top B + r_h B)
         \<and> max (r_left A) (r_left A + r_w A) > min (r_left B) (r_left B + r_w B)
         \<and> max (r_top A) (r_top A + r_h A) > min (r_top B) (r_top B + r_h B))"

subsection \<open>The kinematic state of an entity\<close>

text \<open>
  \<open>body\<close> holds the physics attributes that \<^verbatim>\<open>NPC.__init__\<close> and \<^verbatim>\<open>Player.__init__\<close> both
  create; the Player adds \<open>max_fall_speed\<close>, which the NPC does not have.
\<close>

record body =
  pos_x :: rat
  pos_y :: rat
  width :: int
  height :: int
  vel_x :: rat
  vel_y :: rat
  speed :: rat
  jump_speed :: rat
  gravity :: rat
  on_ground :: bool
  jump_count :: int
  facing_right :: bool
  is_dashing :: bool
  dash_duration :: rat
  dash_timer :: rat
  dash_cooldown_timer :: rat
  dash_cooldown :: rat

record player = body +
  max_fall_speed :: rat

type_synonym npc = body

text \<open>The keys that the two \<^verbatim>\<open>handle_normal_movement\<close> methods read from the keyboard.\<close>

record keys =
  K_LEFT :: bool
  K_RIGHT :: bool
  K_a :: bool
  K_d :: bool
  K_SPACE :: bool

subsection \<open>The loop that the four collision passes share\<close>

text \<open>
  All four passes run the same two nested \<^verbatim>\<open>for\<close> loops over a window of tiles around
  the entity, \<^verbatim>\<open>range(max(0, t - lo), min(len, t + hi))\<close> on each axis, with the rectangle
  of the entity taken once before the loops. They differ in the margins \<open>lo\<close>, \<open>hi\<close> and in
  what is done with a solid tile that collides, here \<open>on_hit\<close>. \<open>tile_step\<close> is the body of
  the inner loop, \<open>scan_tiles\<close> the two loops.
\<close>

definition tile_rect :: "int \<Rightarrow> int \<Rightarrow> rect" where
  "tile_rect y x = \<lparr>r_left = x * 32, r_top = y * 32, r_w = 32, r_h = 32\<rparr>"

definition tile_step ::
  "int list list \<Rightarrow> int list \<Rightarrow> rect \<Rightarrow> (rect \<Rightarrow> 's \<Rightarrow> 's) \<Rightarrow> int \<Rightarrow> int \<Rightarrow> 's \<Rightarrow> error + 's" where
  "tile_step tiles row0 player_rect on_hit y x s =
     (if y < int (length tiles) \<and> x < int (length row0) then
        (case py_index tiles y of
           Inl e \<Rightarrow> Inl e
         | Inr row \<Rightarrow>
            (case py_index row x of
               Inl e \<Rightarrow> Inl e
             | Inr tile_gid \<Rightarrow>
                 if tile_gid \<noteq> 0 then
                   (if colliderect player_rect (tile_rect y x)
                    then Inr (on_hit (tile_rect y x) s) else Inr s)
                 else Inr s))
      else Inr s)"

definition scan_tiles ::
  "int \<Rightarrow> int \<Rightarrow> int list list \<Rightarrow> rect \<Rightarrow> rat \<Rightarrow> rat \<Rightarrow> (rect \<Rightarrow> 's \<Rightarrow> 's) \<Rightarrow> 's \<Rightarrow> error + 's" where
  "scan_tiles lo hi tiles player_rect px py on_hit s =
     (let player_tile_x = \<lfloor>px / 32\<rfloor>;
          player_tile_y = \<lfloor>py / 32\<rfloor>
      in case py_index tiles 0 of
           Inl e \<Rightarrow> Inl e
         | Inr row0 \<Rightarrow>
            (let start_x = max 0 (player_tile_x - lo);
                 end_x = min (int (length row0)) (player_tile_x + hi);
                 start_y = max 0 (player_tile_y - lo);
                 end_y = min (int (length tiles)) (player_tile_y + hi)
             in for_each (py_range start_y end_y)
                  (\<lambda>y. for_each (py_range start_x end_x)
                     (tile_step tiles row0 player_rect on_hit y)) s))"

subsection \<open>NPC: the two passes\<close>

definition push_out_x :: "rect \<Rightarrow> 'a body_scheme \<Rightarrow> 'a body_scheme" where
  "push_out_x tr self =
     (if vel_x self > 0 then self\<lparr>pos_x := of_int (r_left tr - width self)\<rparr>
      else if vel_x self < 0 then self\<lparr>pos_x := of_int (r_right tr)\<rparr>
      else self)"

definition push_out_y :: "rect \<Rightarrow> 'a body_scheme \<Rightarrow> 'a body_scheme" where
  "push_out_y tr self =
     (if vel_y self > 0 then
        self\<lparr>pos_y := of_int (r_top tr - height self), vel_y := 0,
             on_ground := True, jump_count := 0\<rparr>
      else if vel_y self < 0 then
        self\<lparr>pos_y := of_int (r_bottom tr), vel_y := 0\<rparr>
      else self)"

definition npc_check_horizontal_collisions :: "int list list \<Rightarrow> npc \<Rightarrow> error + npc" where
  "npc_check_horizontal_collisions tiles self =
     scan_tiles 2 4 tiles (Rect (pos_x self) (pos_y self) (width self) (height self))
       (pos_x self) (pos_y self) push_out_x self"

definition npc_check_vertical_collisions :: "int list list \<Rightarrow> npc \<Rightarrow> error + npc" where
  "npc_check_vertical_collisions tiles self =
     scan_tiles 2 4 tiles (Rect (pos_x self) (pos_y self) (width self) (height self))
       (pos_x self) (pos_y self) push_out_y (self\<lparr>on_ground := False\<rparr>)"

subsection \<open>Player: the two passes\<close>

definition player_push_out_x :: "rect \<Rightarrow> player \<Rightarrow> player" where
  "player_push_out_x tr self =
     (if vel_x self > 0 \<or> is_dashing self then self\<lparr>pos_x := of_int (r_left tr - width self)\<rparr>
      else if vel_x self < 0 \<or> is_dashing self then self\<lparr>pos_x := of_int (r_right tr)\<rparr>
      else self)"

definition player_check_horizontal_collisions :: "int list list \<Rightarrow> player \<Rightarrow> error + player" where
  "player_check_horizontal_collisions tiles self =
     scan_tiles 2 4 tiles (Rect (pos_x self) (pos_y self) (width self) (height self))
       (pos_x self) (pos_y self) player_push_out_x self"

text \<open>The loops of \<^verbatim>\<open>Player.check_vertical_collisions\<close> (lines 376 to 406).\<close>

definition player_vertical_sweep :: "int list list \<Rightarrow> player \<Rightarrow> error + player" where
  "player_vertical_sweep tiles self =
     scan_tiles 3 5 tiles (Rect (pos_x self) (pos_y self) (width self) (height self))
       (pos_x self) (pos_y self) push_out_y (self\<lparr>on_ground := False\<rparr>)"

text \<open>The "additional check" after the loops (lines 408 to 416), ground level \<open>928\<close>.\<close>

definition ground_snap :: "player \<Rightarrow> player" where
  "ground_snap self =
     (if \<not> on_ground self \<and> vel_y self \<ge> 0 then
        (if \<bar>pos_y self + of_int (height self) - 928\<bar> \<le> 2 then
           self\<lparr>pos_y := 928 - of_int (height self), vel_y := 0,
                on_ground := True, jump_count := 0\<rparr>
         else self)
      else self)"

definition player_check_vertical_collisions :: "int list list \<Rightarrow> player \<Rightarrow> error + player" where
  "player_check_vertical_collisions tiles self =
     (case player_vertical_sweep tiles self of
        Inl e \<Rightarrow> Inl e
      | Inr self' \<Rightarrow> Inr (ground_snap self'))"

subsection \<open>Player.update\<close>

text \<open>
  \<^verbatim>\<open>update\<close> is split at the comments of the source: input, "Apply gravity" with the limit
  on the fall speed, "Update position", the clamps to the map and to the ground level,
  "Check collisions" and "Update dash". The pressed keys, which the source reads from
  pygame, are an argument. The walk-sound timer of \<^verbatim>\<open>handle_normal_movement\<close> is sound only.
  The unused parameter \<^verbatim>\<open>climb_tiles\<close> is dropped; \<open>ground_tiles\<close> may be \<^verbatim>\<open>None\<close>.
\<close>

definition player_handle_normal_movement :: "keys \<Rightarrow> player \<Rightarrow> player" where
  "player_handle_normal_movement k self0 =
     (let self1 = (if K_LEFT k then self0\<lparr>vel_x := - speed self0, facing_right := False\<rparr>
                   else if K_RIGHT k then self0\<lparr>vel_x := speed self0, facing_right := True\<rparr>
                   else self0\<lparr>vel_x := 0\<rparr>);
          self2 = (if K_SPACE k \<and> on_ground self1
                   then self1\<lparr>vel_y := jump_speed self1, on_ground := False,
                              jump_count := jump_count self1 + 1\<rparr>
                   else self1)
      in if K_d k \<and> \<not> is_dashing self2 \<and> dash_cooldown_timer self2 \<le> 0
         then self2\<lparr>is_dashing := True, dash_timer := dash_duration self2,
                    dash_cooldown_timer := dash_cooldown self2\<rparr>
         else self2)"

definition player_apply_gravity :: "rat \<Rightarrow> player \<Rightarrow> player" where
  "player_apply_gravity dt self0 =
     (let self1 = self0\<lparr>vel_y := fl (vel_y self0 + fl (gravity self0 * dt))\<rparr>
      in if vel_y self1 > max_fall_speed self1 then self1\<lparr>vel_y := max_fall_speed self1\<rparr>
         else self1)"

definition update_position :: "rat \<Rightarrow> 'a body_scheme \<Rightarrow> 'a body_scheme" where
  "update_position dt self =
     self\<lparr>pos_x := fl (pos_x self + fl (vel_x self * dt)),
          pos_y := fl (pos_y self + fl (vel_y self * dt))\<rparr>"

definition player_clamp_to_map :: "player \<Rightarrow> player" where
  "player_clamp_to_map self0 =
     (let self1 = self0\<lparr>pos_x := max 0 (min (pos_x self0) (of_int (1920 - width self0)))\<rparr>;
          self2 = self1\<lparr>pos_y := max 0 (min (pos_y self1) (of_int (960 - height self1)))\<rparr>
      in if pos_y self2 > 928
         then self2\<lparr>pos_y := of_int (928 - height self2), vel_y := 0, on_ground := True\<rparr>
         else self2)"

definition update_dash :: "rat \<Rightarrow> 'a body_scheme \<Rightarrow> 'a body_scheme" where
  "update_dash dt self0 =
     (let self1 = (if is_dashing self0
                   then (let s = self0\<lparr>dash_timer := fl (dash_timer self0 - dt)\<rparr>
                         in if dash_timer s \<le> 0 then s\<lparr>is_dashing := False\<rparr> else s)
                   else self0)
      in if dash_cooldown_timer self1 > 0
         then self1\<lparr>dash_cooldown_timer := fl (dash_cooldown_timer self1 - dt)\<rparr>
         else self1)"

text \<open>\<^verbatim>\<open>if ground_tiles:\<close> is false for \<^verbatim>\<open>None\<close> and for the empty list.\<close>

definition truthy :: "int list list option \<Rightarrow> bool" where
  "truthy g = (case g of None \<Rightarrow> False | Some tiles \<Rightarrow> tiles \<noteq> [])"

definition player_update :: "rat \<Rightarrow> keys \<Rightarrow> int list list option \<Rightarrow> player \<Rightarrow> error + player" where
  "player_update dt k ground_tiles self0 =
     (let self1 = player_clamp_to_map
                    (update_position dt (player_apply_gravity dt (player_handle_normal_movement k self0)))
      in if truthy ground_tiles then
           (case player_check_horizontal_collisions (the ground_tiles) self1 of
              Inl e \<Rightarrow> Inl e
            | Inr self2 \<Rightarrow>
               (case player_check_vertical_collisions (the ground_tiles) self2 of
                  Inl e \<Rightarrow> Inl e
                | Inr self3 \<Rightarrow> Inr (update_dash dt self3)))
         else Inr (update_dash dt self1))"

subsection \<open>NPC.update\<close>

definition npc_handle_normal_movement :: "keys \<Rightarrow> npc \<Rightarrow> npc" where
  "npc_handle_normal_movement k self0 =
     (let self1 = (if K_a k \<or> K_LEFT k then self0\<lparr>vel_x := - speed self0, facing_right := False\<rparr>
                   else if K_d k \<or> K_RIGHT k then self0\<lparr>vel_x := speed self0, facing_right := True\<rparr>
                   else self0\<lparr>vel_x := 0\<rparr>);
          self2 = (if K_SPACE k \<and> on_ground self1
                   then self1\<lparr>vel_y := jump_speed self1, on_ground := False,
                              jump_count := jump_count self1 + 1\<rparr>
                   else self1)
      in if K_d k \<and> \<not> is_dashing self2 \<and> dash_cooldown_timer self2 \<le> 0
         then self2\<lparr>is_dashing := True, dash_timer := dash_duration self2,
                    dash_cooldown_timer := dash_cooldown self2\<rparr>
         else self2)"

definition npc_apply_gravity :: "rat \<Rightarrow> npc \<Rightarrow> npc" where
  "npc_apply_gravity dt self = self\<lparr>vel_y := fl (vel_y self + fl (gravity self * dt))\<rparr>"

definition npc_update :: "rat \<Rightarrow> keys \<Rightarrow> int list list option \<Rightarrow> npc \<Rightarrow> error + npc" where
  "npc_update dt k collision_grid self0 =
     (let self1 = update_position dt (npc_apply_gravity dt (npc_handle_normal_movement k self0))
      in if truthy collision_grid then
           (case npc_check_horizontal_collisions (the collision_grid) self1 of
              Inl e \<Rightarrow> Inl e
            | Inr self2 \<Rightarrow>
               (case npc_check_vertical_collisions (the collision_grid) self2 of
                  Inl e \<Rightarrow> Inl e
                | Inr self3 \<Rightarrow> Inr (update_dash dt self3)))
         else Inr (update_dash dt self1))"

subsection \<open>The two builders of the solid grid\<close>

text \<open>
  A layer as both \<^verbatim>\<open>load_tmx_map\<close> functions build it: a name, its size and the flat list
  of tile identifiers. \<^verbatim>\<open>extract_ground_layer\<close> tests \<^verbatim>\<open>name in layers\<close> and reads
  \<^verbatim>\<open>layers[name][y][x]\<close>, which is a dictionary from layer names to two-dimensional arrays
  (\<open>Layer_dict\<close>, an association list); on the list of layer records (\<open>Layer_list\<close>) that
  \<^verbatim>\<open>load_tmx_map\<close> returns, \<^verbatim>\<open>name in layers\<close> compares a string with records and is false.
\<close>

record tmx_layer =
  l_name :: string
  l_width :: int
  l_height :: int
  l_data :: "int list"

datatype layers = Layer_list "tmx_layer list" | Layer_dict "(string \<times> int list list) list"

record map_data =
  m_width :: int
  m_height :: int
  m_layers :: layers

text \<open>\<^verbatim>\<open>[[0 for _ in range(width)] for _ in range(height)]\<close>\<close>

definition zero_grid :: "int \<Rightarrow> int \<Rightarrow> int list list" where
  "zero_grid w h = replicate (nat h) (replicate (nat w) 0)"

text \<open>\<^verbatim>\<open>grid[y][x] = 1\<close> with \<open>0 \<le> y < len(grid)\<close> and \<open>0 \<le> x < len(grid[y])\<close>, as in both loops.\<close>

definition set_solid :: "int list list \<Rightarrow> int \<Rightarrow> int \<Rightarrow> int list list" where
  "set_solid grid y x = grid[nat y := (grid ! nat y)[nat x := 1]]"

definition name_in_layers :: "string \<Rightarrow> layers \<Rightarrow> bool" where
  "name_in_layers name ls =
     (case ls of Layer_list _ \<Rightarrow> False | Layer_dict d \<Rightarrow> map_of d name \<noteq> None)"

definition layer_cell :: "layers \<Rightarrow> string \<Rightarrow> int \<Rightarrow> int \<Rightarrow> error + int" where
  "layer_cell ls name y x =
     (case ls of
        Layer_list _ \<Rightarrow> Inl IndexError
      | Layer_dict d \<Rightarrow>
         (case py_index (the (map_of d name)) y of
            Inl e \<Rightarrow> Inl e
          | Inr row \<Rightarrow> py_index row x))"

definition merge_layer :: "map_data \<Rightarrow> string \<Rightarrow> int list list \<Rightarrow> error + int list list" where
  "merge_layer md name solid_grid =
     (if name_in_layers name (m_layers md) then
        for_each (py_range 0 (m_height md))
          (\<lambda>y. for_each (py_range 0 (m_width md))
             (\<lambda>x grid. case layer_cell (m_layers md) name y x of
                          Inl e \<Rightarrow> Inl e
                        | Inr v \<Rightarrow> Inr (if v \<noteq> 0 then set_solid grid y x else grid)))
          solid_grid
      else Inr solid_grid)"

definition extract_ground_layer :: "map_data \<Rightarrow> error + int list list" where
  "extract_ground_layer md =
     for_each [''ground'', ''ground1''] (merge_layer md) (zero_grid (m_width md) (m_height md))"

text \<open>
  \<^verbatim>\<open>Game.create_collision_grid\<close> reads \<^verbatim>\<open>self.map_data\<close>, whose layers are the list of
  layer records. Its diagnostic prints read \<^verbatim>\<open>grid[0]\<close>, \<^verbatim>\<open>grid[25][x]\<close> and \<^verbatim>\<open>grid[29][x]\<close>
  for the first ten columns and so raise on a map with a ground layer and fewer than 30
  rows; \<open>print_samples\<close> keeps exactly these reads.
\<close>

definition print_samples :: "int list list \<Rightarrow> int \<Rightarrow> error + unit" where
  "print_samples grid ground_y =
     (case py_index grid 0 of
        Inl e \<Rightarrow> Inl e
      | Inr row0 \<Rightarrow>
         for_each (py_range 0 (min 10 (int (length row0))))
           (\<lambda>x u. case py_index grid ground_y of
                     Inl e \<Rightarrow> Inl e
                   | Inr row \<Rightarrow> (case py_index row x of Inl e \<Rightarrow> Inl e | Inr _ \<Rightarrow> Inr u))
           ())"

definition create_collision_grid :: "int \<Rightarrow> int \<Rightarrow> tmx_layer list \<Rightarrow> error + int list list" where
  "create_collision_grid w h ls =
     (case find (\<lambda>l. l_name l = ''ground'') ls of
        None \<Rightarrow> Inr (zero_grid w h)
      | Some ground_layer \<Rightarrow>
         (case for_each (py_range 0 h)
                 (\<lambda>y. for_each (py_range 0 w)
                    (\<lambda>x grid.
                       let index = y * l_width ground_layer + x
                       in if index < int (length (l_data ground_layer)) then
                            (case py_index (l_data ground_layer) index of
                               Inl e \<Rightarrow> Inl e
                             | Inr gid \<Rightarrow> Inr (if gid \<noteq> 0 then set_solid grid y x else grid))
                          else Inr grid))
                 (zero_grid w h) of
            Inl e \<Rightarrow> Inl e
          | Inr grid \<Rightarrow>
             (case py_index grid 0 of
                Inl e \<Rightarrow> Inl e
              | Inr _ \<Rightarrow>
                 (case print_samples grid 25 of
                    Inl e \<Rightarrow> Inl e
                  | Inr _ \<Rightarrow>
                     (case print_samples grid 29 of
                        Inl e \<Rightarrow> Inl e
                      | Inr _ \<Rightarrow> Inr grid)))))"

subsection \<open>Notions used to state the properties\<close>

text \<open>A grid as the builders make it: at least one row, all rows as long as the first.\<close>

definition rectangular :: "int list list \<Rightarrow> bool" where
  "rectangular tiles \<longleftrightarrow> tiles \<noteq> [] \<and> list_all (\<lambda>row. length row = length (hd tiles)) tiles"


text \<open>The cells of the search window in the order of the loops (row by row).\<close>

definition window :: "int \<Rightarrow> int \<Rightarrow> int list list \<Rightarrow> rat \<Rightarrow> rat \<Rightarrow> (int \<times> int) list" where
  "window lo hi tiles px py =
     List.product
       (py_range (max 0 (\<lfloor>py / 32\<rfloor> - lo)) (min (int (length tiles)) (\<lfloor>py / 32\<rfloor> + hi)))
       (py_range (max 0 (\<lfloor>px / 32\<rfloor> - lo)) (min (int (length (hd tiles))) (\<lfloor>px / 32\<rfloor> + hi)))"

definition solid_hit :: "int list list \<Rightarrow> rect \<Rightarrow> int \<times> int \<Rightarrow> bool" where
  "solid_hit tiles R c =
     (case c of (y, x) \<Rightarrow> tiles ! nat y ! nat x \<noteq> 0 \<and> colliderect R (tile_rect y x))"

text \<open>The solid tiles of the window that overlap the rectangle \<open>R\<close>, in loop order.\<close>

definition hit_tiles :: "int \<Rightarrow> int \<Rightarrow> int list list \<Rightarrow> rect \<Rightarrow> rat \<Rightarrow> rat \<Rightarrow> rect list" where
  "hit_tiles lo hi tiles R px py =
     map (\<lambda>(y, x). tile_rect y x) (filter (solid_hit tiles R) (window lo hi tiles px py))"

definition body_rect :: "'a body_scheme \<Rightarrow> rect" where
  "body_rect b = Rect (pos_x b) (pos_y b) (width b) (height b)"

definition player_hits_h :: "int list list \<Rightarrow> player \<Rightarrow> rect list" where
  "player_hits_h tiles p = hit_tiles 2 4 tiles (body_rect p) (pos_x p) (pos_y p)"

definition player_hits_v :: "int list list \<Rightarrow> player \<Rightarrow> rect list" where
  "player_hits_v tiles p = hit_tiles 3 5 tiles (body_rect p) (pos_x p) (pos_y p)"

definition npc_hits :: "int list list \<Rightarrow> npc \<Rightarrow> rect list" where
  "npc_hits tiles n = hit_tiles 2 4 tiles (body_rect n) (pos_x n) (pos_y n)"

subsection \<open>Initial states\<close>

text \<open>
  \<^verbatim>\<open>Player.__init__(x, y)\<close> with its default scale factor \<open>0.75\<close>, so that width and height
  are \<^verbatim>\<open>int(32 * 0.75) = 24\<close>, and \<^verbatim>\<open>NPC.__init__(x, y)\<close> with its default scale factor \<open>1.0\<close>.
\<close>

definition player_init :: "rat \<Rightarrow> rat \<Rightarrow> player" where
  "player_init x y =
     \<lparr>pos_x = x, pos_y = y, width = 24, height = 24, vel_x = 0, vel_y = 0,
      speed = 150, jump_speed = - 450, gravity = 1000, on_ground = False, jump_count = 0,
      facing_right = True, is_dashing = False, dash_duration = 1 / 5, dash_timer = 0,
      dash_cooldown_timer = 0, dash_cooldown = 1, max_fall_speed = 500\<rparr>"

definition npc_init :: "rat \<Rightarrow> rat \<Rightarrow> npc" where
  "npc_init x y =
     \<lparr>pos_x = x, pos_y = y, width = 60, height = 60, vel_x = 0, vel_y = 0,
      speed = 100, jump_speed = - 300, gravity = 600, on_ground = False, jump_count = 0,
      facing_right = True, is_dashing = False, dash_duration = 1 / 5, dash_timer = 0,
      dash_cooldown_timer = 0, dash_cooldown = 1\<rparr>"

subsection \<open>The vertical pass in the words of the specification\<close>

text \<open>
  "Resets grounded to false at the start of the pass. For every solid tile in the window
  overlapping the body: if \<open>vel_y > 0\<close>, set \<open>y = tile.top - height\<close>, \<open>vel_y = 0\<close>,
  \<open>grounded = true\<close>, \<open>jump_count = 0\<close>; if \<open>vel_y < 0\<close>, set \<open>y = tile.bottom\<close>, \<open>vel_y = 0\<close>."
  The argument \<open>overlapping\<close> is the list of those tiles.
\<close>

fun spec_resolve_tiles :: "rect list \<Rightarrow> 'a body_scheme \<Rightarrow> 'a body_scheme" where
  "spec_resolve_tiles [] b = b"
| "spec_resolve_tiles (tile # rest) b =
     spec_resolve_tiles rest
       (if vel_y b > 0 then
          b\<lparr>pos_y := of_int (r_top tile - height b), vel_y := 0, on_ground := True, jump_count := 0\<rparr>
        else if vel_y b < 0 then b\<lparr>pos_y := of_int (r_bottom tile), vel_y := 0\<rparr>
        else b)"

definition spec_resolve_vertical :: "rect list \<Rightarrow> 'a body_scheme \<Rightarrow> 'a body_scheme" where
  "spec_resolve_vertical overlapping b = spec_resolve_tiles overlapping (b\<lparr>on_ground := False\<rparr>)"

subsection \<open>Concrete grids and bodies\<close>

text \<open>A grid of two rows and two columns whose lower row is solid.\<close>

definition ledge_grid :: "int list list" where
  "ledge_grid = [[0, 0], [1, 1]]"

definition falling_player :: player where
  "falling_player = (player_init 4 10)\<lparr>vel_y := 100, jump_count := 1\<rparr>"

definition rising_npc :: npc where
  "rising_npc = (npc_init 4 10)\<lparr>vel_y := - 100\<rparr>"


definition resting_npc :: npc where
  "resting_npc = npc_init 4 10"

text \<open>A grid without solid tiles, and players near the ground level 928.\<close>

definition open_grid :: "int list list" where
  "open_grid = [[0]]"

definition skimming_player :: player where
  "skimming_player = (player_init 4 904)\<lparr>vel_y := - 100\<rparr>"

definition hovering_player :: player where
  "hovering_player = (player_init 4 903)\<lparr>vel_y := 50, jump_count := 1\<rparr>"

text \<open>A wall tile to the left of a free cell, and a dashing Player moving left into it.\<close>

definition wall_grid :: "int list list" where
  "wall_grid = [[1, 0]]"

definition dashing_left_player :: player where
  "dashing_left_player =
     (player_init 30 4)\<lparr>vel_x := - 150, facing_right := False, is_dashing := True\<rparr>"

text \<open>Thirty rows of one column, the last row (tile row 29, top at 928) solid.\<close>

definition ground_grid :: "int list list" where
  "ground_grid = replicate 29 [0] @ [[1]]"

definition flush_player :: player where
  "flush_player = (player_init 4 8)\<lparr>vel_y := 5\<rparr>"

definition flush_ground_player :: player where
  "flush_ground_player = (player_init 4 904)\<lparr>vel_y := 5, jump_count := 1\<rparr>"

definition flush_ground_npc :: npc where
  "flush_ground_npc = (npc_init 4 868)\<lparr>vel_y := 5, on_ground := True\<rparr>"

definition moving_left_npc :: npc where
  "moving_left_npc = (npc_init 30 4)\<lparr>vel_x := - 100, facing_right := False\<rparr>"

text \<open>
  For the idempotence of the vertical pass: the test and the effect of the check after
  the loops, and what every body that comes out of the Player's pass satisfies.
\<close>

definition near_ground :: "player \<Rightarrow> bool" where
  "near_ground b \<longleftrightarrow> \<bar>pos_y b + of_int (height b) - 928\<bar> \<le> 2"

definition snapped :: "player \<Rightarrow> player" where
  "snapped b = b\<lparr>pos_y := 928 - of_int (height b), vel_y := 0, on_ground := True, jump_count := 0\<rparr>"

definition settled :: "int list list \<Rightarrow> player \<Rightarrow> bool" where
  "settled tiles q \<longleftrightarrow>
     (if vel_y q = 0 then near_ground q \<longrightarrow> pos_y q = 928 - of_int (height q)
      else player_hits_v tiles q = [] \<and> (0 \<le> vel_y q \<longrightarrow> \<not> near_ground q))"

text \<open>The bodies that the passes return for \<open>falling_player\<close> and \<open>rising_npc\<close>.\<close>

definition landed_player :: player where
  "landed_player = falling_player\<lparr>pos_y := 8, vel_y := 0, on_ground := True, jump_count := 0\<rparr>"

definition bumped_npc :: npc where
  "bumped_npc = rising_npc\<lparr>pos_y := 64, vel_y := 0\<rparr>"

text \<open>The numbers that a \<^verbatim>\<open>float\<close> can hold.\<close>

definition is_float :: "rat \<Rightarrow> bool" where
  "is_float q \<longleftrightarrow> fl q = q"

text \<open>No key is pressed.\<close>

definition no_keys :: keys where
  "no_keys = \<lparr>K_LEFT = False, K_RIGHT = False, K_a = False, K_d = False, K_SPACE = False\<rparr>"

text \<open>The invariant of a tick of the Player: the fall speed is within the limit \<open>M\<close>.\<close>

definition speed_ok :: "rat \<Rightarrow> player \<Rightarrow> bool" where
  "speed_ok M s \<longleftrightarrow> vel_y s \<le> M \<and> max_fall_speed s = M"

text \<open>A Player that falls at 400 pixels per second.\<close>

definition fast_player :: player where
  "fast_player = (player_init 4 0)\<lparr>vel_y := 400\<rparr>"

text \<open>
  For the grid builders: the grid of \<open>h\<close> rows and \<open>w\<close> columns whose cell (row, col) is 1
  if \<open>solid row col\<close> and 0 otherwise; a two-dimensional array that has at least \<open>h\<close> rows
  of at least \<open>w\<close> cells; the effect of the two nested loops that mark cells; and grids of
  a given shape.
\<close>

definition cell_grid :: "int \<Rightarrow> int \<Rightarrow> (nat \<Rightarrow> nat \<Rightarrow> bool) \<Rightarrow> int list list" where
  "cell_grid w h solid =
     map (\<lambda>row. map (\<lambda>col. if solid row col then 1 else 0) [0..<nat w]) [0..<nat h]"

definition covers :: "int list list \<Rightarrow> int \<Rightarrow> int \<Rightarrow> bool" where
  "covers G w h \<longleftrightarrow> nat h \<le> length G \<and> list_all (\<lambda>row. nat w \<le> length row) (take (nat h) G)"

definition mark :: "(int \<Rightarrow> int \<Rightarrow> bool) \<Rightarrow> (int \<times> int) list \<Rightarrow> int list list \<Rightarrow> int list list" where
  "mark P cells grid = fold (\<lambda>(y, x) g. if P y x then set_solid g y x else g) cells grid"

definition shaped :: "nat \<Rightarrow> nat \<Rightarrow> int list list \<Rightarrow> bool" where
  "shaped W H g \<longleftrightarrow> length g = H \<and> (\<forall>i<H. length (g ! i) = W)"

text \<open>Layers of a map of one column and thirty rows, and a dictionary of layers.\<close>

definition empty_ground :: tmx_layer where
  "empty_ground = \<lparr>l_name = ''ground'', l_width = 1, l_height = 30, l_data = replicate 30 0\<rparr>"

definition platform_ground1 :: tmx_layer where
  "platform_ground1 = \<lparr>l_name = ''ground1'', l_width = 1, l_height = 30, l_data = 5 # replicate 29 0\<rparr>"

definition layer_dict :: "(string \<times> int list list) list" where
  "layer_dict = [(''background'', [[9, 9, 9]]), (''ground'', [[0, 3, 0]]), (''ground1'', [[7, 0, 0]])]"

definition bottom_ground :: tmx_layer where
  "bottom_ground = \<lparr>l_name = ''ground'', l_width = 1, l_height = 30, l_data = replicate 29 0 @ [4]\<rparr>"

text \<open>
  A Player of height 64, as the game creates it, above the bottom of the map, and a Player
  whose next position is rounded onto the edge of the window of the ground-level check.
\<close>

definition tall_player :: player where
  "tall_player = (player_init 4 890)\<lparr>width := 64, height := 64, vel_y := 500\<rparr>"

definition edge_player :: player where
  "edge_player = (player_init 4 (1789 / 2))\<lparr>vel_y := 500\<rparr>"

section \<open>Properties\<close>

subsection \<open>Rounding is monotone and idempotent\<close>

lemma bitlen_rat_bounds:
  assumes "0 < a"
  shows "(2 :: rat) powi (bitlen a - 1) \<le> of_int a" and "of_int a < (2 :: rat) powi bitlen a"
proof -
  have k: "1 \<le> bitlen a"
    using assms bitlen_eq_zero_iff [of a] bitlen_nonneg [of a] by linarith
  have "2 ^ nat (bitlen a - 1) \<le> a" and "a < 2 ^ nat (bitlen a)"
    using bitlen_bounds [OF assms] by simp_all
  then have "(of_int (2 ^ nat (bitlen a - 1)) :: rat) \<le> of_int a"
    and "(of_int a :: rat) < of_int (2 ^ nat (bitlen a))"
    by (simp_all only: of_int_le_iff of_int_less_iff)
  then show "(2 :: rat) powi (bitlen a - 1) \<le> of_int a" and "of_int a < (2 :: rat) powi bitlen a"
    using k by (simp_all add: power_int_def)
qed

lemma binade_bounds:
  assumes "0 < q"
  shows "2 powi binade q \<le> q" and "q < 2 powi (binade q + 1)"
proof -
  define a where "a = fst (quotient_of q)"
  define b where "b = snd (quotient_of q)"
  define e where "e = bitlen a - bitlen b"
  have b: "0 < b"
    unfolding b_def by (rule quotient_of_denom_pos')
  have q: "q = of_int a / of_int b"
    by (rule quotient_of_div) (simp add: a_def b_def)
  have a: "0 < a"
    using assms b unfolding q by (simp add: zero_less_divide_iff)
  note A = bitlen_rat_bounds [OF a] and B = bitlen_rat_bounds [OF b]
  have pos: "(0 :: rat) < 2 powi n" for n
    by (simp add: zero_less_power_int)
  have "q < 2 powi bitlen a / 2 powi (bitlen b - 1)"
    unfolding q using A(2) B(1) a b pos by (intro frac_less) simp_all
  also have "\<dots> = 2 powi (e + 1)"
    by (simp add: e_def power_int_diff [symmetric] algebra_simps)
  finally have upper: "q < 2 powi (e + 1)" .
  have "2 powi (bitlen a - 1) / 2 powi bitlen b < q"
    unfolding q using A(1) B(2) a b pos [of "bitlen a - 1"]
    by (intro frac_less2) simp_all
  moreover have "2 powi (bitlen a - 1) / 2 powi bitlen b = (2 :: rat) powi (e - 1)"
    by (simp add: e_def power_int_diff [symmetric] algebra_simps)
  ultimately have lower: "2 powi (e - 1) < q"
    by simp
  have bin: "binade q = (if 2 powi e \<le> q then e else e - 1)"
    by (simp add: binade_def Let_def e_def a_def b_def)
  show "2 powi binade q \<le> q"
    using lower by (simp add: bin)
  show "q < 2 powi (binade q + 1)"
    using upper by (simp add: bin)
qed

lemma binade_eqI:
  assumes "2 powi e \<le> q" and "q < 2 powi (e + 1)"
  shows "binade q = e"
proof -
  have "(0 :: rat) < 2 powi e"
    by (rule zero_less_power_int) simp
  with assms(1) have q: "0 < q"
    by linarith
  note B = binade_bounds [OF q]
  have "2 powi binade q < (2 :: rat) powi (e + 1)"
    using B(1) assms(2) by simp
  then have "binade q < e + 1"
    by (metis linorder_not_less power_int_increasing one_le_numeral)
  moreover have "(2 :: rat) powi e < 2 powi (binade q + 1)"
    using B(2) assms(1) by simp
  then have "e < binade q + 1"
    by (metis linorder_not_less power_int_increasing one_le_numeral)
  ultimately show ?thesis
    by simp
qed


lemma round_even_of_int: "round_even (of_int n) = n"
  by (simp add: round_even_def)

lemma round_even_mono:
  assumes "x \<le> y"
  shows "round_even x \<le> round_even y"
proof (cases "\<lfloor>x\<rfloor> = \<lfloor>y\<rfloor>")
  case True
  then show ?thesis
    using assms by (auto simp: round_even_def Let_def)
next
  case False
  then have "\<lfloor>x\<rfloor> + 1 \<le> \<lfloor>y\<rfloor>"
    using floor_mono [OF assms] by simp
  moreover have "round_even x \<le> \<lfloor>x\<rfloor> + 1"
    by (simp add: round_even_def Let_def)
  moreover have "\<lfloor>y\<rfloor> \<le> round_even y"
    by (simp add: round_even_def Let_def)
  ultimately show ?thesis
    by simp
qed

lemma pow2_pos: "(0 :: rat) < 2 powi n"
  by (rule zero_less_power_int) simp

lemma fl_pos_eq:
  "0 < q \<Longrightarrow> fl q = of_int (round_even (q / 2 powi (binade q - 52))) * 2 powi (binade q - 52)"
  by (simp add: fl_def Let_def)

lemma fl_zero: "fl 0 = 0"
  by (simp add: fl_def)

lemma fl_minus: "fl (- q) = - fl q"
  by (simp add: fl_def Let_def)

lemma scaled_bounds:
  assumes "0 < q"
  shows "2 ^ 52 \<le> q / 2 powi (binade q - 52)" and "q / 2 powi (binade q - 52) < 2 ^ 53"
proof -
  have split: "(2 :: rat) powi binade q = 2 ^ 52 * 2 powi (binade q - 52)"
    "(2 :: rat) powi (binade q + 1) = 2 ^ 53 * 2 powi (binade q - 52)"
    by (simp_all add: power_int_diff power_int_add)
  show "2 ^ 52 \<le> q / 2 powi (binade q - 52)"
    using binade_bounds(1) [OF assms] pow2_pos [of "binade q - 52"]
    unfolding split(1) by (simp add: pos_le_divide_eq)
  show "q / 2 powi (binade q - 52) < 2 ^ 53"
    using binade_bounds(2) [OF assms] pow2_pos [of "binade q - 52"]
    unfolding split(2) by (simp add: pos_divide_less_eq)
qed

lemma significand_bounds:
  assumes "0 < q"
  shows "2 ^ 52 \<le> round_even (q / 2 powi (binade q - 52))"
    and "round_even (q / 2 powi (binade q - 52)) \<le> 2 ^ 53"
proof -
  have "round_even (of_int (2 ^ 52)) \<le> round_even (q / 2 powi (binade q - 52))"
    using scaled_bounds(1) [OF assms] by (intro round_even_mono) simp
  then show "2 ^ 52 \<le> round_even (q / 2 powi (binade q - 52))"
    by (simp only: round_even_of_int)
  have "round_even (q / 2 powi (binade q - 52)) \<le> round_even (of_int (2 ^ 53))"
    using scaled_bounds(2) [OF assms] by (intro round_even_mono) simp
  then show "round_even (q / 2 powi (binade q - 52)) \<le> 2 ^ 53"
    by (simp only: round_even_of_int)
qed

lemma fl_in_binade:
  assumes "0 < q"
  shows "2 powi binade q \<le> fl q" and "fl q \<le> 2 powi (binade q + 1)"
proof -
  let ?u = "(2 :: rat) powi (binade q - 52)"
  let ?r = "round_even (q / ?u)"
  have split: "(2 :: rat) powi binade q = 2 ^ 52 * ?u"
    "(2 :: rat) powi (binade q + 1) = 2 ^ 53 * ?u"
    by (simp_all add: power_int_diff power_int_add)
  have "(of_int (2 ^ 52) :: rat) \<le> of_int ?r" and "(of_int ?r :: rat) \<le> of_int (2 ^ 53)"
    using significand_bounds [OF assms] by (simp_all only: of_int_le_iff)
  then have r: "(2 ^ 52 :: rat) \<le> of_int ?r" "(of_int ?r :: rat) \<le> 2 ^ 53"
    by simp_all
  show "2 powi binade q \<le> fl q"
    unfolding split(1) fl_pos_eq [OF assms]
    using r(1) pow2_pos [of "binade q - 52"] by (intro mult_right_mono) simp_all
  show "fl q \<le> 2 powi (binade q + 1)"
    unfolding split(2) fl_pos_eq [OF assms]
    using r(2) pow2_pos [of "binade q - 52"] by (intro mult_right_mono) simp_all
qed

lemma fl_pos: "0 < q \<Longrightarrow> 0 < fl q"
  using fl_in_binade(1) [of q] pow2_pos [of "binade q"] by linarith




lemma fl_fixI:
  assumes "0 < q" and "q / 2 powi (binade q - 52) = of_int m"
  shows "fl q = q"
proof -
  have "(2 :: rat) powi (binade q - 52) \<noteq> 0"
    using pow2_pos [of "binade q - 52"] by simp
  then have "of_int m * 2 powi (binade q - 52) = q"
    using assms(2) by (simp add: field_simps)
  then show ?thesis
    unfolding fl_pos_eq [OF assms(1)] assms(2) round_even_of_int .
qed

lemma fl_idem_pos:
  assumes "0 < q"
  shows "fl (fl q) = fl q"
proof -
  let ?e = "binade q"
  let ?u = "(2 :: rat) powi (?e - 52)"
  let ?r = "round_even (q / ?u)"
  have u: "0 < ?u"
    by (rule pow2_pos)
  have f: "fl q = of_int ?r * ?u"
    by (rule fl_pos_eq [OF assms])
  have fpos: "0 < fl q"
    by (rule fl_pos [OF assms])
  show ?thesis
  proof (cases "?r = 2 ^ 53")
    case True
    have top: "fl q = 2 powi (?e + 1)"
      unfolding f True by (simp add: power_int_diff power_int_add)
    have "(2 :: rat) powi (?e + 1) < 2 powi (?e + 1 + 1)"
      by (intro power_int_strict_increasing) simp_all
    then have "binade (fl q) = ?e + 1"
      unfolding top by (intro binade_eqI) simp_all
    then have "fl q / 2 powi (binade (fl q) - 52) = of_int (2 ^ 52)"
      unfolding top by (simp add: power_int_diff power_int_add)
    with fpos show ?thesis
      by (rule fl_fixI)
  next
    case False
    then have "?r < 2 ^ 53"
      using significand_bounds(2) [OF assms] by simp
    then have "(of_int ?r :: rat) < of_int (2 ^ 53)"
      by (simp only: of_int_less_iff)
    then have "of_int ?r * ?u < 2 ^ 53 * ?u"
      using u by (intro mult_strict_right_mono) simp_all
    also have "2 ^ 53 * ?u = 2 powi (?e + 1)"
      by (simp add: power_int_diff power_int_add)
    finally have "fl q < 2 powi (?e + 1)"
      unfolding f .
    then have "binade (fl q) = ?e"
      using fl_in_binade(1) [OF assms] by (intro binade_eqI)
    then have "fl q / 2 powi (binade (fl q) - 52) = of_int ?r"
      unfolding f using u by simp
    with fpos show ?thesis
      by (rule fl_fixI)
  qed
qed

lemma fl_idem: "fl (fl q) = fl q"
proof -
  consider "0 < q" | "q = 0" | "q < 0"
    by linarith
  then show ?thesis
  proof cases
    case 1
    then show ?thesis
      by (rule fl_idem_pos)
  next
    case 2
    then show ?thesis
      by (simp add: fl_zero)
  next
    case 3
    then have "fl (fl (- q)) = fl (- q)"
      by (intro fl_idem_pos) simp
    then show ?thesis
      by (simp add: fl_minus)
  qed
qed

lemma is_float_fl: "is_float (fl q)"
  by (simp add: is_float_def fl_idem)

lemma is_float_zero: "is_float 0"
  by (simp add: is_float_def fl_zero)

lemma is_float_minus: "is_float (- q) \<longleftrightarrow> is_float q"
  by (auto simp: is_float_def fl_minus)

lemma is_float_of_int_pos:
  assumes "0 < n" and "n < 2 ^ 53"
  shows "is_float (of_int n)"
proof -
  let ?q = "of_int n :: rat"
  have q: "0 < ?q"
    using assms(1) by simp
  have "2 powi binade ?q \<le> ?q"
    by (rule binade_bounds(1) [OF q])
  also have "?q < of_int (2 ^ 53)"
    using assms(2) by (simp only: of_int_less_iff)
  finally have "(2 :: rat) powi binade ?q < 2 powi 53"
    by simp
  then have "binade ?q < 53"
    by (metis linorder_not_less power_int_increasing one_le_numeral)
  then obtain k where k: "52 - binade ?q = int k"
    by (metis add_diff_cancel_left' diff_ge_0_iff_ge less_le_not_le nonneg_int_cases
        zle_add1_eq_le numeral_Bit1 numeral_One numeral_plus_one semiring_norm)
  have "?q / 2 powi (binade ?q - 52) = ?q * 2 powi (52 - binade ?q)"
    by (simp add: power_int_diff field_simps)
  also have "\<dots> = of_int (n * 2 ^ k)"
    unfolding k by simp
  finally show ?thesis
    unfolding is_float_def using q by (intro fl_fixI)
qed

lemma is_float_of_int: "\<bar>n\<bar> < 2 ^ 53 \<Longrightarrow> is_float (of_int n)"
proof -
  assume a: "\<bar>n\<bar> < 2 ^ 53"
  consider "0 < n" | "n = 0" | "n < 0"
    by linarith
  then show ?thesis
  proof cases
    case 1
    then show ?thesis
      using a by (intro is_float_of_int_pos) simp_all
  next
    case 2
    then show ?thesis
      by (simp add: is_float_zero)
  next
    case 3
    then have "is_float (of_int (- n))"
      using a by (intro is_float_of_int_pos) simp_all
    then show ?thesis
      by (simp add: is_float_minus)
  qed
qed

subsection \<open>Loops without exceptions on a rectangular grid\<close>

lemma for_each_pure:
  "(\<And>a s. a \<in> set as \<Longrightarrow> body a s = Inr (f a s)) \<Longrightarrow> for_each as body s = Inr (fold f as s)"
  by (induction as arbitrary: s) simp_all

lemma py_index_in_range:
  "0 \<le> i \<Longrightarrow> i < int (length xs) \<Longrightarrow> py_index xs i = Inr (xs ! nat i)"
  by (simp add: py_index_def)

lemma set_py_range: "set (py_range a b) = {i. a \<le> i \<and> i < b}"
  by (auto simp: py_range_def)

lemma rectangular_row:
  "rectangular tiles \<Longrightarrow> i < length tiles \<Longrightarrow> length (tiles ! i) = length (hd tiles)"
  by (simp add: rectangular_def list_all_length)

lemma rectangular_index0: "rectangular tiles \<Longrightarrow> py_index tiles 0 = Inr (hd tiles)"
  by (cases tiles) (simp_all add: rectangular_def py_index_def)

lemma tile_step_pure:
  assumes "rectangular tiles" "0 \<le> y" "y < int (length tiles)" "0 \<le> x" "x < int (length (hd tiles))"
  shows "tile_step tiles (hd tiles) R on_hit y x s =
           Inr (if solid_hit tiles R (y, x) then on_hit (tile_rect y x) s else s)"
proof -
  have row: "py_index tiles y = Inr (tiles ! nat y)"
    using assms by (simp add: py_index_in_range)
  have "length (tiles ! nat y) = length (hd tiles)"
    using assms by (intro rectangular_row) auto
  then have cell: "py_index (tiles ! nat y) x = Inr (tiles ! nat y ! nat x)"
    using assms by (simp add: py_index_in_range)
  show ?thesis
    using assms(3,5) by (simp add: tile_step_def row cell solid_hit_def)
qed

lemma fold_product:
  "fold (\<lambda>y. fold (f y) xs) ys s = fold (\<lambda>(y, x). f y x) (List.product ys xs) s"
proof (induction ys arbitrary: s)
  case Nil
  show ?case by simp
next
  case (Cons y ys)
  have "fold (\<lambda>(y, x). f y x) (map (Pair y) xs) s = fold (f y) xs s" for s
    by (simp add: fold_map comp_def)
  with Cons show ?case by simp
qed

lemma fold_filter_hits:
  "fold (\<lambda>c s. if P c then g c s else s) cs s = fold g (filter P cs) s"
  by (induction cs arbitrary: s) simp_all

lemma scan_tiles_pure:
  assumes "rectangular tiles"
  shows "scan_tiles lo hi tiles R px py on_hit s = Inr (fold on_hit (hit_tiles lo hi tiles R px py) s)"
proof -
  let ?ys = "py_range (max 0 (\<lfloor>py / 32\<rfloor> - lo)) (min (int (length tiles)) (\<lfloor>py / 32\<rfloor> + hi))"
  let ?xs = "py_range (max 0 (\<lfloor>px / 32\<rfloor> - lo)) (min (int (length (hd tiles))) (\<lfloor>px / 32\<rfloor> + hi))"
  let ?f = "\<lambda>y x s. if solid_hit tiles R (y, x) then on_hit (tile_rect y x) s else s"
  have inner: "for_each ?xs (tile_step tiles (hd tiles) R on_hit y) s = Inr (fold (?f y) ?xs s)"
    if "y \<in> set ?ys" for y s
  proof (rule for_each_pure)
    fix x s assume "x \<in> set ?xs"
    with that show "tile_step tiles (hd tiles) R on_hit y x s = Inr (?f y x s)"
      by (intro tile_step_pure assms) (auto simp: set_py_range)
  qed
  have "for_each ?ys (\<lambda>y. for_each ?xs (tile_step tiles (hd tiles) R on_hit y)) s
          = Inr (fold (\<lambda>y. fold (?f y) ?xs) ?ys s)"
    by (rule for_each_pure) (rule inner)
  also have "fold (\<lambda>y. fold (?f y) ?xs) ?ys s = fold (\<lambda>(y, x). ?f y x) (List.product ?ys ?xs) s"
    by (rule fold_product)
  also have "\<dots> = fold (\<lambda>c s. if solid_hit tiles R c then (case c of (y, x) \<Rightarrow> on_hit (tile_rect y x)) s else s)
                    (window lo hi tiles px py) s"
  proof -
    have "(\<lambda>(y, x). ?f y x) = (\<lambda>c s. if solid_hit tiles R c then (case c of (y, x) \<Rightarrow> on_hit (tile_rect y x)) s else s)"
      by (auto simp: fun_eq_iff)
    then show ?thesis by (simp only: window_def)
  qed
  also have "\<dots> = fold (\<lambda>c. case c of (y, x) \<Rightarrow> on_hit (tile_rect y x)) (filter (solid_hit tiles R) (window lo hi tiles px py)) s"
    by (rule fold_filter_hits)
  also have "\<dots> = fold on_hit (hit_tiles lo hi tiles R px py) s"
    by (simp add: hit_tiles_def fold_map comp_def case_prod_unfold)
  finally show ?thesis
    by (simp add: scan_tiles_def rectangular_index0[OF assms] Let_def)
qed

subsection \<open>Vertical: only the first overlapping tile acts\<close>

text \<open>
  The rectangle of the entity is taken before the loops and a tile that acts sets \<open>vel_y\<close>
  to 0, after which neither branch is taken again.
\<close>

lemma push_out_y_idle: "vel_y b = 0 \<Longrightarrow> push_out_y t b = b"
  by (simp add: push_out_y_def)

lemma vel_y_push_out_y: "vel_y (push_out_y t b) = 0"
  by (simp add: push_out_y_def)

lemma fold_push_out_y_idle: "vel_y b = 0 \<Longrightarrow> fold (push_out_y) ts b = b"
  by (induction ts) (simp_all add: push_out_y_idle)

lemma fold_push_out_y: "fold push_out_y ts b = (case ts of [] \<Rightarrow> b | t # _ \<Rightarrow> push_out_y t b)"
  by (cases ts) (simp_all add: fold_push_out_y_idle vel_y_push_out_y)

lemma player_vertical_sweep_hits:
  "rectangular tiles \<Longrightarrow>
   player_vertical_sweep tiles p =
     Inr (case player_hits_v tiles p of [] \<Rightarrow> p\<lparr>on_ground := False\<rparr>
          | t # _ \<Rightarrow> push_out_y t (p\<lparr>on_ground := False\<rparr>))"
  by (simp add: player_vertical_sweep_def scan_tiles_pure fold_push_out_y player_hits_v_def body_rect_def)

lemma npc_vertical_hits:
  "rectangular tiles \<Longrightarrow>
   npc_check_vertical_collisions tiles n =
     Inr (case npc_hits tiles n of [] \<Rightarrow> n\<lparr>on_ground := False\<rparr>
          | t # _ \<Rightarrow> push_out_y t (n\<lparr>on_ground := False\<rparr>))"
  by (simp add: npc_check_vertical_collisions_def scan_tiles_pure fold_push_out_y npc_hits_def body_rect_def)

subsection \<open>Horizontal: the last overlapping tile wins\<close>

lemma push_out_x_twice: "push_out_x t (push_out_x t' b) = push_out_x t b"
  by (simp add: push_out_x_def)

lemma fold_push_out_x:
  "fold push_out_x ts b = (if ts = [] then b else push_out_x (last ts) b)"
proof (induction ts arbitrary: b)
  case Nil show ?case by simp
next
  case (Cons t ts)
  show ?case by (simp add: Cons.IH push_out_x_twice)
qed

lemma player_push_out_x_twice: "player_push_out_x t (player_push_out_x t' b) = player_push_out_x t b"
  by (simp add: player_push_out_x_def)

lemma fold_player_push_out_x:
  "fold player_push_out_x ts b = (if ts = [] then b else player_push_out_x (last ts) b)"
proof (induction ts arbitrary: b)
  case Nil show ?case by simp
next
  case (Cons t ts)
  show ?case by (simp add: Cons.IH player_push_out_x_twice)
qed

lemma player_horizontal_hits:
  "rectangular tiles \<Longrightarrow>
   player_check_horizontal_collisions tiles p =
     Inr (if player_hits_h tiles p = [] then p else player_push_out_x (last (player_hits_h tiles p)) p)"
  by (simp add: player_check_horizontal_collisions_def scan_tiles_pure fold_player_push_out_x player_hits_h_def body_rect_def)

lemma npc_horizontal_hits:
  "rectangular tiles \<Longrightarrow>
   npc_check_horizontal_collisions tiles n =
     Inr (if npc_hits tiles n = [] then n else push_out_x (last (npc_hits tiles n)) n)"
  by (simp add: npc_check_horizontal_collisions_def scan_tiles_pure fold_push_out_x npc_hits_def body_rect_def)

subsection \<open>The vertical pass and its description\<close>

lemma spec_resolve_tiles_fold: "spec_resolve_tiles ts b = fold push_out_y ts b"
  by (induction ts arbitrary: b) (simp_all add: push_out_y_def)

text \<open>
  C4. On a rectangular grid the loops of the vertical pass, of the Player and of the NPC,
  compute what the specification describes: grounded is reset, then the rule for falling
  and rising bodies is applied to every solid tile of the window that overlaps the
  rectangle of the body, in loop order. The Player's pass then applies its check of the
  ground level to the result.
\<close>

theorem vertical_pass_refines_spec:
  assumes "rectangular tiles"
  shows "player_vertical_sweep tiles p = Inr (spec_resolve_vertical (player_hits_v tiles p) p)
       \<and> player_check_vertical_collisions tiles p
           = Inr (ground_snap (spec_resolve_vertical (player_hits_v tiles p) p))
       \<and> npc_check_vertical_collisions tiles n = Inr (spec_resolve_vertical (npc_hits tiles n) n)"
  using assms
  by (simp add: player_check_vertical_collisions_def player_vertical_sweep_def
      npc_check_vertical_collisions_def scan_tiles_pure spec_resolve_vertical_def
      spec_resolve_tiles_fold player_hits_v_def npc_hits_def body_rect_def)

theorem vertical_pass_refines_spec_witness:
  "rectangular ledge_grid
   \<and> player_vertical_sweep ledge_grid falling_player
        = Inr (falling_player\<lparr>pos_y := 8, vel_y := 0, on_ground := True, jump_count := 0\<rparr>)
   \<and> player_check_vertical_collisions ledge_grid falling_player
        = Inr (falling_player\<lparr>pos_y := 8, vel_y := 0, on_ground := True, jump_count := 0\<rparr>)
   \<and> npc_check_vertical_collisions ledge_grid rising_npc
        = Inr (rising_npc\<lparr>pos_y := 64, vel_y := 0\<rparr>)"
proof -
  have r: "rectangular ledge_grid"
    by code_simp
  have p: "spec_resolve_vertical (player_hits_v ledge_grid falling_player) falling_player
             = falling_player\<lparr>pos_y := 8, vel_y := 0, on_ground := True, jump_count := 0\<rparr>"
    by code_simp
  have g: "ground_snap (falling_player\<lparr>pos_y := 8, vel_y := 0, on_ground := True, jump_count := 0\<rparr>)
             = falling_player\<lparr>pos_y := 8, vel_y := 0, on_ground := True, jump_count := 0\<rparr>"
    by code_simp
  have n: "spec_resolve_vertical (npc_hits ledge_grid rising_npc) rising_npc
             = rising_npc\<lparr>pos_y := 64, vel_y := 0\<rparr>"
    by code_simp
  show ?thesis
    using vertical_pass_refines_spec [OF r, of falling_player rising_npc]
    by (simp only: r p g n simp_thms)
qed

subsection \<open>Zero velocity\<close>





subsection \<open>The check of the ground level after the loops\<close>

text \<open>
  C7, as stated, fails: the check after the loops is guarded by \<open>vel_y >= 0\<close>. A rising
  Player whose bottom edge is exactly on the ground level, over a grid without solid
  tiles, is not grounded by the pass and keeps its position and velocity.
\<close>

theorem snap_without_velocity_guard_counterexample:
  "player_vertical_sweep open_grid skimming_player = Inr skimming_player
   \<and> \<not> on_ground skimming_player
   \<and> \<bar>pos_y skimming_player + of_int (height skimming_player) - 928\<bar> \<le> 2
   \<and> player_check_vertical_collisions open_grid skimming_player = Inr skimming_player"
  by code_simp

text \<open>
  C7, amended. Let \<open>q\<close> be the body as the loops of the vertical pass leave it. If \<open>q\<close> is
  not grounded, \<open>vel_y q >= 0\<close> and its bottom edge is within 2 pixels of the ground level
  928, the pass returns \<open>q\<close> grounded, with \<open>y = 928 - height\<close>, \<open>vel_y = 0\<close> and
  \<open>jump_count = 0\<close>. If \<open>q\<close> is still rising (\<open>vel_y q < 0\<close>) the pass returns \<open>q\<close> as it is.
\<close>

theorem ground_level_snap:
  assumes "player_vertical_sweep tiles p = Inr q"
  shows "(\<not> on_ground q \<and> 0 \<le> vel_y q \<and> \<bar>pos_y q + of_int (height q) - 928\<bar> \<le> 2 \<longrightarrow>
            player_check_vertical_collisions tiles p
              = Inr (q\<lparr>pos_y := 928 - of_int (height q), vel_y := 0,
                       on_ground := True, jump_count := 0\<rparr>))
       \<and> (vel_y q < 0 \<longrightarrow> player_check_vertical_collisions tiles p = Inr q)"
  using assms by (simp add: player_check_vertical_collisions_def ground_snap_def)

theorem ground_level_snap_witness:
  "player_vertical_sweep open_grid hovering_player = Inr hovering_player
   \<and> \<not> on_ground hovering_player \<and> 0 \<le> vel_y hovering_player
   \<and> \<bar>pos_y hovering_player + of_int (height hovering_player) - 928\<bar> \<le> 2
   \<and> player_check_vertical_collisions open_grid hovering_player
        = Inr (hovering_player\<lparr>pos_y := 904, vel_y := 0, on_ground := True, jump_count := 0\<rparr>)
   \<and> player_vertical_sweep open_grid skimming_player = Inr skimming_player
   \<and> vel_y skimming_player < 0
   \<and> player_check_vertical_collisions open_grid skimming_player = Inr skimming_player"
proof -
  have a: "player_vertical_sweep open_grid hovering_player = Inr hovering_player"
    by code_simp
  have b: "\<not> on_ground hovering_player" "0 \<le> vel_y hovering_player"
    "\<bar>pos_y hovering_player + of_int (height hovering_player) - 928\<bar> \<le> 2"
    by code_simp+
  have c: "928 - of_int (height hovering_player) = (904 :: rat)"
    by code_simp
  have d: "player_vertical_sweep open_grid skimming_player = Inr skimming_player"
    by code_simp
  have e: "vel_y skimming_player < 0"
    by code_simp
  show ?thesis
    using ground_level_snap [OF a] ground_level_snap [OF d]
    by (simp only: a b c d e simp_thms)
qed

subsection \<open>Horizontal resolution while dashing\<close>

lemma fold_dashing:
  "is_dashing b \<Longrightarrow>
   fold player_push_out_x ts b = fold (\<lambda>t s. s\<lparr>pos_x := of_int (r_left t - width s)\<rparr>) ts b"
  by (induction ts arbitrary: b) (simp_all add: player_push_out_x_def)

text \<open>
  C9. While \<open>is_dashing\<close> holds, the Player's horizontal pass takes the first branch for
  every solid tile of the window that overlaps the rectangle of the Player: each sets
  \<open>x = tile.left - width\<close>, whatever \<open>vel_x\<close> is, and the last of them in loop order
  determines the result.
\<close>

theorem dashing_resolves_to_the_left_face:
  assumes "rectangular tiles" and "is_dashing p"
  shows "player_check_horizontal_collisions tiles p
           = Inr (fold (\<lambda>t s. s\<lparr>pos_x := of_int (r_left t - width s)\<rparr>) (player_hits_h tiles p) p)
       \<and> player_check_horizontal_collisions tiles p
           = Inr (if player_hits_h tiles p = [] then p
                  else p\<lparr>pos_x := of_int (r_left (last (player_hits_h tiles p)) - width p)\<rparr>)"
proof (intro conjI)
  show "player_check_horizontal_collisions tiles p
          = Inr (fold (\<lambda>t s. s\<lparr>pos_x := of_int (r_left t - width s)\<rparr>) (player_hits_h tiles p) p)"
    using assms
    by (simp only: player_check_horizontal_collisions_def scan_tiles_pure fold_dashing
        player_hits_h_def body_rect_def)
  show "player_check_horizontal_collisions tiles p
          = Inr (if player_hits_h tiles p = [] then p
                 else p\<lparr>pos_x := of_int (r_left (last (player_hits_h tiles p)) - width p)\<rparr>)"
    using assms by (simp add: player_horizontal_hits player_push_out_x_def)
qed

subsection \<open>A body flush on top of a tile\<close>

text \<open>
  C3, as stated, fails: pygame's overlap test is strict, so a body whose bottom edge is
  exactly the top of a tile does not collide with it. A Player flush on the solid lower
  row of \<open>ledge_grid\<close> with \<open>vel_y = 5\<close> comes out of the pass not grounded and with its
  velocity unchanged.
\<close>

theorem flush_body_not_grounded_counterexample:
  "ledge_grid ! 1 ! 0 \<noteq> 0
   \<and> pos_y flush_player = of_int (r_top (tile_rect 1 0) - height flush_player)
   \<and> 0 \<le> vel_y flush_player
   \<and> player_check_vertical_collisions ledge_grid flush_player = Inr flush_player
   \<and> \<not> on_ground flush_player \<and> vel_y flush_player \<noteq> 0"
  by code_simp

lemma c_int_of_int: "c_int (of_int k) = k"
  by (simp add: c_int_def)

lemma flush_not_colliding:
  "0 \<le> height b \<Longrightarrow> pos_y b = of_int (r_top (tile_rect ty tx) - height b) \<Longrightarrow>
   \<not> colliderect (body_rect b) (tile_rect ty tx)"
  by (simp add: colliderect_def body_rect_def Rect_def tile_rect_def c_int_of_int
        del: of_int_diff of_int_mult)

lemma near_ground_row:
  "\<bar>of_int (r_top (tile_rect ty tx) - h) + of_int h - (928 :: rat)\<bar> \<le> 2 \<longleftrightarrow> ty = 29"
proof -
  have "of_int (r_top (tile_rect ty tx) - h) + of_int h - (928 :: rat) = of_int (32 * ty - 928)"
    by (simp add: tile_rect_def)
  then have "\<bar>of_int (r_top (tile_rect ty tx) - h) + of_int h - (928 :: rat)\<bar> \<le> 2
               \<longleftrightarrow> \<bar>32 * ty - 928\<bar> \<le> 2"
    by (simp only: of_int_abs [symmetric] of_int_le_numeral_iff)
  also have "\<dots> \<longleftrightarrow> ty = 29"
    by presburger
  finally show ?thesis .
qed

text \<open>
  C3, amended. A body of non-negative height that rests flush on top of the tile in row
  \<open>ty\<close> does not collide with that tile. If it overlaps no solid tile of its window and
  \<open>vel_y >= 0\<close>, one vertical pass of the Player sets grounded, \<open>vel_y = 0\<close> and leaves \<open>y\<close>
  unchanged exactly when the tile row is 29, whose top is the ground level 928; on any
  other row the Player, and on every row the NPC, is reported not grounded, with \<open>y\<close> and
  \<open>vel_y\<close> unchanged.
\<close>

theorem flush_body_vertical_pass:
  assumes "rectangular tiles"
    and "0 \<le> height p" and "pos_y p = of_int (r_top (tile_rect ty tx) - height p)"
    and "0 \<le> vel_y p" and "player_hits_v tiles p = []"
    and "0 \<le> height n" and "pos_y n = of_int (r_top (tile_rect ty tx) - height n)"
    and "npc_hits tiles n = []"
  shows "\<not> colliderect (body_rect p) (tile_rect ty tx)
       \<and> \<not> colliderect (body_rect n) (tile_rect ty tx)
       \<and> player_check_vertical_collisions tiles p
           = Inr (if ty = 29 then p\<lparr>vel_y := 0, on_ground := True, jump_count := 0\<rparr>
                  else p\<lparr>on_ground := False\<rparr>)
       \<and> npc_check_vertical_collisions tiles n = Inr (n\<lparr>on_ground := False\<rparr>)"
proof (intro conjI)
  show "\<not> colliderect (body_rect p) (tile_rect ty tx)"
    using assms(2,3) by (rule flush_not_colliding)
  show "\<not> colliderect (body_rect n) (tile_rect ty tx)"
    using assms(6,7) by (rule flush_not_colliding)
  show "npc_check_vertical_collisions tiles n = Inr (n\<lparr>on_ground := False\<rparr>)"
    using assms(1,8) by (simp add: npc_vertical_hits)
  have sweep: "player_vertical_sweep tiles p = Inr (p\<lparr>on_ground := False\<rparr>)"
    using assms(1,5) by (simp add: player_vertical_sweep_hits)
  have near: "\<bar>pos_y p + of_int (height p) - 928\<bar> \<le> 2 \<longleftrightarrow> ty = 29"
    unfolding assms(3) by (rule near_ground_row)
  have at: "928 - of_int (height p) = pos_y p" if "ty = 29"
    using that by (simp add: assms(3) tile_rect_def)
  show "player_check_vertical_collisions tiles p
          = Inr (if ty = 29 then p\<lparr>vel_y := 0, on_ground := True, jump_count := 0\<rparr>
                 else p\<lparr>on_ground := False\<rparr>)"
    using assms(4) near at
    by (simp add: player_check_vertical_collisions_def sweep ground_snap_def)
qed

theorem flush_body_vertical_pass_witness:
  "rectangular ground_grid
   \<and> 0 \<le> height flush_ground_player
   \<and> pos_y flush_ground_player = of_int (r_top (tile_rect 29 0) - height flush_ground_player)
   \<and> 0 \<le> vel_y flush_ground_player \<and> player_hits_v ground_grid flush_ground_player = []
   \<and> 0 \<le> height flush_ground_npc
   \<and> pos_y flush_ground_npc = of_int (r_top (tile_rect 29 0) - height flush_ground_npc)
   \<and> npc_hits ground_grid flush_ground_npc = []
   \<and> ground_grid ! 29 ! 0 \<noteq> 0
   \<and> player_check_vertical_collisions ground_grid flush_ground_player
       = Inr (flush_ground_player\<lparr>vel_y := 0, on_ground := True, jump_count := 0\<rparr>)
   \<and> npc_check_vertical_collisions ground_grid flush_ground_npc
       = Inr (flush_ground_npc\<lparr>on_ground := False\<rparr>)"
proof -
  have h: "rectangular ground_grid"
    "0 \<le> height flush_ground_player"
    "pos_y flush_ground_player = of_int (r_top (tile_rect 29 0) - height flush_ground_player)"
    "0 \<le> vel_y flush_ground_player" "player_hits_v ground_grid flush_ground_player = []"
    "0 \<le> height flush_ground_npc"
    "pos_y flush_ground_npc = of_int (r_top (tile_rect 29 0) - height flush_ground_npc)"
    "npc_hits ground_grid flush_ground_npc = []"
    by code_simp+
  have s: "ground_grid ! 29 ! 0 \<noteq> 0"
    by code_simp
  show ?thesis
    using flush_body_vertical_pass [OF h] s by (simp add: h)
qed

subsection \<open>Horizontal resolution against a wall\<close>

theorem dashing_resolves_to_the_left_face_witness:
  "rectangular wall_grid \<and> is_dashing dashing_left_player
   \<and> vel_x dashing_left_player < 0
   \<and> player_hits_h wall_grid dashing_left_player = [tile_rect 0 0]
   \<and> player_check_horizontal_collisions wall_grid dashing_left_player
        = Inr (dashing_left_player\<lparr>pos_x := - 24\<rparr>)"
proof -
  have h: "rectangular wall_grid" "is_dashing dashing_left_player"
    by code_simp+
  have v: "vel_x dashing_left_player < 0"
    "player_hits_h wall_grid dashing_left_player = [tile_rect 0 0]"
    by code_simp+
  have x: "rat_of_int (r_left (tile_rect 0 0) - width dashing_left_player) = - 24"
    by code_simp
  show ?thesis
    using dashing_resolves_to_the_left_face [OF h, THEN conjunct2]
    by (simp only: h v x simp_thms list.distinct last.simps if_True if_False)
qed

text \<open>
  What the horizontal pass does when a solid tile of the window overlaps the body: moving
  right, \<open>x = tile.left - width\<close>; moving left, \<open>x = tile.right\<close> for the NPC and for a
  Player that is not dashing. The tile is the last overlapping one in loop order, and
  \<open>vel_x\<close> is not written.
\<close>

lemma horizontal_resolution:
  assumes "rectangular tiles"
  shows "(0 < vel_x p \<and> player_hits_h tiles p \<noteq> [] \<longrightarrow>
            player_check_horizontal_collisions tiles p
              = Inr (p\<lparr>pos_x := of_int (r_left (last (player_hits_h tiles p)) - width p)\<rparr>))
       \<and> (vel_x p < 0 \<and> \<not> is_dashing p \<and> player_hits_h tiles p \<noteq> [] \<longrightarrow>
            player_check_horizontal_collisions tiles p
              = Inr (p\<lparr>pos_x := of_int (r_right (last (player_hits_h tiles p)))\<rparr>))
       \<and> (0 < vel_x n \<and> npc_hits tiles n \<noteq> [] \<longrightarrow>
            npc_check_horizontal_collisions tiles n
              = Inr (n\<lparr>pos_x := of_int (r_left (last (npc_hits tiles n)) - width n)\<rparr>))
       \<and> (vel_x n < 0 \<and> npc_hits tiles n \<noteq> [] \<longrightarrow>
            npc_check_horizontal_collisions tiles n
              = Inr (n\<lparr>pos_x := of_int (r_right (last (npc_hits tiles n)))\<rparr>))"
  using assms
  by (simp add: player_horizontal_hits npc_horizontal_hits player_push_out_x_def push_out_x_def)

text \<open>
  C6 at a dashing Player that moves left into a wall tile: the tile overlaps the Player's
  rectangle by two pixels on its right face. The pass sets \<open>x = tile.left - width = -24\<close>,
  on the far side of the tile, where C6 says \<open>x = tile.right = 32\<close>. The NPC's pass, on the
  same tile with the same direction of motion, sets \<open>x = tile.right\<close>.
\<close>

theorem dashing_left_pushed_through_tile:
  "wall_grid ! 0 ! 0 \<noteq> 0
   \<and> colliderect (body_rect dashing_left_player) (tile_rect 0 0)
   \<and> vel_x dashing_left_player < 0
   \<and> player_check_horizontal_collisions wall_grid dashing_left_player
        = Inr (dashing_left_player
                 \<lparr>pos_x := of_int (r_left (tile_rect 0 0) - width dashing_left_player)\<rparr>)
   \<and> rat_of_int (r_left (tile_rect 0 0) - width dashing_left_player) = - 24
   \<and> rat_of_int (r_right (tile_rect 0 0)) = 32
   \<and> colliderect (body_rect moving_left_npc) (tile_rect 0 0)
   \<and> vel_x moving_left_npc < 0
   \<and> npc_check_horizontal_collisions wall_grid moving_left_npc
        = Inr (moving_left_npc\<lparr>pos_x := of_int (r_right (tile_rect 0 0))\<rparr>)"
  by code_simp

subsection \<open>Running the vertical pass twice\<close>

lemma ground_snap_eq:
  "ground_snap s = (if \<not> on_ground s \<and> 0 \<le> vel_y s \<and> near_ground s then snapped s else s)"
  unfolding ground_snap_def near_ground_def snapped_def by presburger

lemma near_ground_snapped: "near_ground (snapped b)"
  by (simp add: near_ground_def snapped_def)

lemma snapped_fields:
  "vel_y (snapped b) = 0" "pos_y (snapped b) = 928 - of_int (height b)"
  "height (snapped b) = height b" "pos_x (snapped b) = pos_x b" "width (snapped b) = width b"
  by (simp_all add: snapped_def)

lemma hit_tiles_are_tiles:
  "t \<in> set (hit_tiles lo hi tiles R px py) \<Longrightarrow> \<exists>ty tx. t = tile_rect ty tx"
  unfolding hit_tiles_def by (auto simp del: split_paired_Ex)

lemma player_hits_v_frame:
  "pos_x q = pos_x p \<Longrightarrow> pos_y q = pos_y p \<Longrightarrow> width q = width p \<Longrightarrow> height q = height p \<Longrightarrow>
   player_hits_v tiles q = player_hits_v tiles p"
  by (simp only: player_hits_v_def body_rect_def)

lemma landing_near_ground:
  assumes "\<bar>of_int (r_top (tile_rect ty tx) - h) + of_int h - (928 :: rat)\<bar> \<le> 2"
  shows "(of_int (r_top (tile_rect ty tx) - h) :: rat) = 928 - of_int h"
proof -
  have "of_int (r_top (tile_rect ty tx) - h) + of_int h - (928 :: rat) = of_int (32 * ty - 928)"
    by (simp add: tile_rect_def)
  with assms have "\<bar>32 * ty - 928\<bar> \<le> 2"
    by (simp only: of_int_abs [symmetric] of_int_le_numeral_iff)
  then have "ty = 29"
    by presburger
  then show ?thesis
    by (simp add: tile_rect_def)
qed

lemma settled_snapped: "settled tiles (snapped s)"
  by (simp add: settled_def snapped_fields)

lemma settled_ground_snap:
  assumes "vel_y s = 0 \<Longrightarrow> on_ground s \<Longrightarrow> near_ground s \<Longrightarrow> pos_y s = 928 - of_int (height s)"
    and "vel_y s \<noteq> 0 \<Longrightarrow> player_hits_v tiles s = [] \<and> \<not> on_ground s"
  shows "settled tiles (ground_snap s)"
proof (cases "\<not> on_ground s \<and> 0 \<le> vel_y s \<and> near_ground s")
  case True
  then have "ground_snap s = snapped s"
    by (simp add: ground_snap_eq)
  then show ?thesis
    by (simp only: settled_snapped)
next
  case False
  then have "ground_snap s = s"
    unfolding ground_snap_eq by (simp only: if_False)
  moreover have "settled tiles s"
    unfolding settled_def using False assms by (cases "vel_y s = 0") auto
  ultimately show ?thesis
    by simp
qed

lemma landed_near_ground:
  assumes "near_ground (push_out_y (tile_rect ty tx) b)" and "0 < vel_y b"
  shows "pos_y (push_out_y (tile_rect ty tx) b) = 928 - of_int (height (push_out_y (tile_rect ty tx) b))"
proof -
  have f: "pos_y (push_out_y (tile_rect ty tx) b) = of_int (r_top (tile_rect ty tx) - height b)"
    "height (push_out_y (tile_rect ty tx) b) = height b"
    using assms(2) by (simp_all add: push_out_y_def)
  show ?thesis
    using assms(1) unfolding near_ground_def f by (rule landing_near_ground)
qed

lemma on_ground_push_out_y:
  "\<not> on_ground b \<Longrightarrow> on_ground (push_out_y t b) \<Longrightarrow> 0 < vel_y b"
  by (simp add: push_out_y_def split: if_splits)

lemma settled_after_pass:
  assumes "rectangular tiles" and "player_check_vertical_collisions tiles p = Inr q"
  shows "settled tiles q"
proof (cases "player_hits_v tiles p")
  case Nil
  then have q: "q = ground_snap (p\<lparr>on_ground := False\<rparr>)"
    using assms by (simp add: player_check_vertical_collisions_def player_vertical_sweep_hits)
  have "player_hits_v tiles (p\<lparr>on_ground := False\<rparr>) = []"
    using Nil by (simp add: player_hits_v_def body_rect_def)
  then show ?thesis
    unfolding q by (intro settled_ground_snap) simp_all
next
  case (Cons t ts)
  then have "t \<in> set (hit_tiles 3 5 tiles (body_rect p) (pos_x p) (pos_y p))"
    by (simp add: player_hits_v_def)
  then obtain ty tx where t: "t = tile_rect ty tx"
    using hit_tiles_are_tiles by blast
  have q: "q = ground_snap (push_out_y t (p\<lparr>on_ground := False\<rparr>))"
    using assms Cons by (simp add: player_check_vertical_collisions_def player_vertical_sweep_hits)
  show ?thesis
    unfolding q
  proof (rule settled_ground_snap)
    assume "on_ground (push_out_y t (p\<lparr>on_ground := False\<rparr>))"
    then have "0 < vel_y (p\<lparr>on_ground := False\<rparr>)"
      by (intro on_ground_push_out_y [of _ t]) simp_all
    moreover assume "near_ground (push_out_y t (p\<lparr>on_ground := False\<rparr>))"
    ultimately show "pos_y (push_out_y t (p\<lparr>on_ground := False\<rparr>))
        = 928 - of_int (height (push_out_y t (p\<lparr>on_ground := False\<rparr>)))"
      unfolding t by (intro landed_near_ground)
  next
    assume "vel_y (push_out_y t (p\<lparr>on_ground := False\<rparr>)) \<noteq> 0"
    then show "player_hits_v tiles (push_out_y t (p\<lparr>on_ground := False\<rparr>)) = []
        \<and> \<not> on_ground (push_out_y t (p\<lparr>on_ground := False\<rparr>))"
      by (simp add: vel_y_push_out_y)
  qed
qed

lemma ground_snap_position:
  assumes "near_ground s \<Longrightarrow> 0 \<le> vel_y s \<Longrightarrow> pos_y s = 928 - of_int (height s)"
  shows "pos_x (ground_snap (s\<lparr>on_ground := False\<rparr>)) = pos_x s
       \<and> pos_y (ground_snap (s\<lparr>on_ground := False\<rparr>)) = pos_y s"
proof (cases "0 \<le> vel_y s \<and> near_ground s")
  case True
  then have n: "near_ground (s\<lparr>on_ground := False\<rparr>)"
    by (simp add: near_ground_def)
  have "ground_snap (s\<lparr>on_ground := False\<rparr>) = snapped (s\<lparr>on_ground := False\<rparr>)"
    using True n by (simp add: ground_snap_eq)
  then show ?thesis
    using assms True by (simp add: snapped_fields)
next
  case False
  then have n: "\<not> (0 \<le> vel_y (s\<lparr>on_ground := False\<rparr>) \<and> near_ground (s\<lparr>on_ground := False\<rparr>))"
    by (simp add: near_ground_def)
  have "ground_snap (s\<lparr>on_ground := False\<rparr>) = s\<lparr>on_ground := False\<rparr>"
    unfolding ground_snap_eq using n by auto
  then show ?thesis
    by simp
qed

lemma settled_second_pass:
  assumes "rectangular tiles" and "settled tiles q"
  shows "\<exists>r. player_check_vertical_collisions tiles q = Inr r \<and> pos_x r = pos_x q \<and> pos_y r = pos_y q"
proof -
  have sweep: "player_vertical_sweep tiles q = Inr (q\<lparr>on_ground := False\<rparr>)"
  proof (cases "vel_y q = 0")
    case True
    then show ?thesis
      using assms(1) by (simp add: player_vertical_sweep_def scan_tiles_pure fold_push_out_y_idle)
  next
    case False
    then have "player_hits_v tiles q = []"
      using assms(2) by (simp add: settled_def)
    then show ?thesis
      using assms(1) by (simp add: player_vertical_sweep_hits)
  qed
  have "near_ground q \<Longrightarrow> 0 \<le> vel_y q \<Longrightarrow> pos_y q = 928 - of_int (height q)"
    using assms(2) unfolding settled_def by (cases "vel_y q = 0") simp_all
  then have "pos_x (ground_snap (q\<lparr>on_ground := False\<rparr>)) = pos_x q
       \<and> pos_y (ground_snap (q\<lparr>on_ground := False\<rparr>)) = pos_y q"
    by (rule ground_snap_position)
  then show ?thesis
    by (simp add: player_check_vertical_collisions_def sweep)
qed

lemma npc_second_pass:
  assumes "rectangular tiles" and "npc_check_vertical_collisions tiles n = Inr m"
  shows "\<exists>m'. npc_check_vertical_collisions tiles m = Inr m' \<and> pos_x m' = pos_x m \<and> pos_y m' = pos_y m"
proof (cases "npc_hits tiles n")
  case Nil
  then have m: "m = n\<lparr>on_ground := False\<rparr>"
    using assms by (simp add: npc_vertical_hits)
  have "npc_hits tiles m = []"
    using Nil unfolding m by (simp add: npc_hits_def body_rect_def)
  then show ?thesis
    using assms(1) by (simp add: npc_vertical_hits)
next
  case (Cons t ts)
  then have "m = push_out_y t (n\<lparr>on_ground := False\<rparr>)"
    using assms by (simp add: npc_vertical_hits)
  then have "vel_y m = 0"
    by (simp add: vel_y_push_out_y)
  then have "npc_check_vertical_collisions tiles m = Inr (m\<lparr>on_ground := False\<rparr>)"
    using assms(1) by (simp add: npc_check_vertical_collisions_def scan_tiles_pure fold_push_out_y_idle)
  then show ?thesis
    by simp
qed

text \<open>
  C8. On a rectangular grid the body that a vertical pass returns is not moved by a second
  pass, for the Player and for the NPC: the second pass returns, and \<open>x\<close> and \<open>y\<close> are
  what the first pass left. The body need not be free of overlaps for this: after a tile
  has acted, \<open>vel_y\<close> is 0 and no branch is taken again, and the check of the ground level
  maps \<open>y = 928 - height\<close> to itself. (The grounded flag may differ after the second pass.)
\<close>

theorem vertical_pass_position_idempotent:
  assumes "rectangular tiles"
  shows "(player_check_vertical_collisions tiles p = Inr q \<longrightarrow>
            (\<exists>r. player_check_vertical_collisions tiles q = Inr r
                 \<and> pos_x r = pos_x q \<and> pos_y r = pos_y q))
       \<and> (npc_check_vertical_collisions tiles n = Inr m \<longrightarrow>
            (\<exists>m'. npc_check_vertical_collisions tiles m = Inr m'
                 \<and> pos_x m' = pos_x m \<and> pos_y m' = pos_y m))"
proof (intro conjI impI)
  assume "player_check_vertical_collisions tiles p = Inr q"
  with assms have "settled tiles q"
    by (rule settled_after_pass)
  with assms show "\<exists>r. player_check_vertical_collisions tiles q = Inr r
                 \<and> pos_x r = pos_x q \<and> pos_y r = pos_y q"
    by (rule settled_second_pass)
next
  assume "npc_check_vertical_collisions tiles n = Inr m"
  with assms show "\<exists>m'. npc_check_vertical_collisions tiles m = Inr m'
                 \<and> pos_x m' = pos_x m \<and> pos_y m' = pos_y m"
    by (rule npc_second_pass)
qed

theorem vertical_pass_position_idempotent_witness:
  "rectangular ledge_grid
   \<and> player_check_vertical_collisions ledge_grid falling_player = Inr landed_player
   \<and> npc_check_vertical_collisions ledge_grid rising_npc = Inr bumped_npc
   \<and> (\<exists>r. player_check_vertical_collisions ledge_grid landed_player = Inr r
          \<and> pos_x r = pos_x landed_player \<and> pos_y r = pos_y landed_player)
   \<and> (\<exists>m'. npc_check_vertical_collisions ledge_grid bumped_npc = Inr m'
          \<and> pos_x m' = pos_x bumped_npc \<and> pos_y m' = pos_y bumped_npc)"
proof -
  have r: "rectangular ledge_grid"
    by code_simp
  have a: "player_check_vertical_collisions ledge_grid falling_player = Inr landed_player"
    by code_simp
  have b: "npc_check_vertical_collisions ledge_grid rising_npc = Inr bumped_npc"
    by code_simp
  show ?thesis
    using vertical_pass_position_idempotent
            [OF r, of falling_player landed_player rising_npc bumped_npc]
    by (simp only: r a b simp_thms)
qed

subsection \<open>Gravity and the limit on the fall speed\<close>

text \<open>
  C5, as stated, fails for the NPC: \<^verbatim>\<open>NPC.update\<close> adds \<open>gravity * dt\<close> and has no limit, and
  the NPC has no attribute \<open>max_fall_speed\<close>. After one tick of one second from rest its
  \<open>vel_y\<close> is 600, above the only \<open>max_fall_speed\<close> of the program, the Player's 500, which
  the Player's gravity step does enforce under the same gravity.
\<close>

theorem npc_fall_speed_not_clamped_counterexample:
  "vel_y (npc_apply_gravity 1 (npc_init 0 0)) = 600
   \<and> npc_update 1 no_keys None (npc_init 0 0) = Inr ((npc_init 0 0)\<lparr>pos_y := 600, vel_y := 600\<rparr>)
   \<and> max_fall_speed (player_init 0 0) = 500
   \<and> vel_y (player_apply_gravity 1 ((player_init 0 0)\<lparr>gravity := 600\<rparr>)) = 500"
  by code_simp

lemma for_each_invariant:
  assumes step: "\<And>a s s'. a \<in> set as \<Longrightarrow> P s \<Longrightarrow> body a s = Inr s' \<Longrightarrow> P s'"
    and "P s" and "for_each as body s = Inr s'"
  shows "P s'"
  using assms(2,3) step
proof (induction as arbitrary: s)
  case Nil
  then show ?case by simp
next
  case (Cons a as)
  from Cons.prems(2) obtain s1 where s1: "body a s = Inr s1" and run: "for_each as body s1 = Inr s'"
    by (auto split: sum.splits)
  have p1: "P s1"
    by (rule Cons.prems(3) [of a s s1]) (simp, fact Cons.prems(1), fact s1)
  show ?case
  proof (rule Cons.IH [of s1])
    show "P s1" by (fact p1)
    show "for_each as body s1 = Inr s'" by (fact run)
    fix b t t'
    assume "b \<in> set as" and "P t" and "body b t = Inr t'"
    then show "P t'"
      using Cons.prems(3) [of b t t'] by simp
  qed
qed

lemma tile_step_invariant:
  assumes "\<And>t s. P s \<Longrightarrow> P (on_hit t s)" and "P s"
    and "tile_step tiles row0 R on_hit y x s = Inr s'"
  shows "P s'"
  using assms unfolding tile_step_def by (auto split: if_splits sum.splits)

lemma scan_tiles_invariant:
  assumes "\<And>t s. P s \<Longrightarrow> P (on_hit t s)" and "P s"
    and "scan_tiles lo hi tiles R px py on_hit s = Inr s'"
  shows "P s'"
proof -
  from assms(3) obtain row0 ys xs where
    run: "for_each ys (\<lambda>y. for_each xs (tile_step tiles row0 R on_hit y)) s = Inr s'"
    unfolding scan_tiles_def Let_def by (auto split: sum.splits)
  have inner: "P b'" if "P b" "for_each xs (tile_step tiles row0 R on_hit y) b = Inr b'" for y b b'
    using that(1,2)
    by (intro for_each_invariant [of xs P "tile_step tiles row0 R on_hit y" b b'])
       (auto intro: tile_step_invariant [of P on_hit] assms(1))
  show ?thesis
    using run assms(2) inner
    by (intro for_each_invariant [of ys P "\<lambda>y. for_each xs (tile_step tiles row0 R on_hit y)" s s']) auto
qed

lemma speed_ok_before_collisions:
  "speed_ok (max_fall_speed p)
     (update_position dt (player_apply_gravity dt (player_handle_normal_movement k p)))"
  by (simp add: speed_ok_def update_position_def player_apply_gravity_def
      player_handle_normal_movement_def Let_def)

lemma speed_ok_clamp: "0 \<le> M \<Longrightarrow> speed_ok M s \<Longrightarrow> speed_ok M (player_clamp_to_map s)"
  by (simp add: speed_ok_def player_clamp_to_map_def Let_def)

lemma speed_ok_push_x: "speed_ok M s \<Longrightarrow> speed_ok M (player_push_out_x t s)"
  by (simp add: speed_ok_def player_push_out_x_def)

lemma speed_ok_push_y: "0 \<le> M \<Longrightarrow> speed_ok M s \<Longrightarrow> speed_ok M (push_out_y t s)"
  by (simp add: speed_ok_def push_out_y_def)

lemma speed_ok_ground_snap: "0 \<le> M \<Longrightarrow> speed_ok M s \<Longrightarrow> speed_ok M (ground_snap s)"
  by (simp add: speed_ok_def ground_snap_def)

lemma speed_ok_update_dash: "speed_ok M s \<Longrightarrow> speed_ok M (update_dash dt s)"
  by (simp add: speed_ok_def update_dash_def Let_def)

lemma speed_ok_horizontal:
  "speed_ok M s \<Longrightarrow> player_check_horizontal_collisions tiles s = Inr s' \<Longrightarrow> speed_ok M s'"
  unfolding player_check_horizontal_collisions_def
  by (rule scan_tiles_invariant [of "speed_ok M" player_push_out_x]) (simp_all add: speed_ok_push_x)

lemma speed_ok_vertical:
  assumes "0 \<le> M" and "speed_ok M s" and "player_check_vertical_collisions tiles s = Inr s'"
  shows "speed_ok M s'"
proof -
  from assms(3) obtain s1 where sweep: "player_vertical_sweep tiles s = Inr s1"
    and s': "s' = ground_snap s1"
    unfolding player_check_vertical_collisions_def by (auto split: sum.splits)
  have "speed_ok M (s\<lparr>on_ground := False\<rparr>)"
    using assms(2) by (simp add: speed_ok_def)
  then have "speed_ok M s1"
    using sweep unfolding player_vertical_sweep_def
    by (rule scan_tiles_invariant [of "speed_ok M" push_out_y, rotated 1])
       (simp add: speed_ok_push_y assms(1))
  then show ?thesis
    unfolding s' using assms(1) by (simp add: speed_ok_ground_snap)
qed

lemma speed_ok_update:
  assumes "0 \<le> max_fall_speed p" and "player_update dt k g p = Inr q"
  shows "speed_ok (max_fall_speed p) q"
proof -
  let ?M = "max_fall_speed p"
  let ?s1 = "player_clamp_to_map
                (update_position dt (player_apply_gravity dt (player_handle_normal_movement k p)))"
  have s1: "speed_ok ?M ?s1"
    using assms(1) by (intro speed_ok_clamp speed_ok_before_collisions)
  show ?thesis
  proof (cases "truthy g")
    case False
    then have "q = update_dash dt ?s1"
      using assms(2) by (simp add: player_update_def Let_def)
    then show ?thesis
      using s1 by (simp add: speed_ok_update_dash)
  next
    case True
    then obtain s2 s3 where h: "player_check_horizontal_collisions (the g) ?s1 = Inr s2"
      and v: "player_check_vertical_collisions (the g) s2 = Inr s3"
      and q: "q = update_dash dt s3"
      using assms(2) by (auto simp: player_update_def Let_def split: sum.splits)
    have "speed_ok ?M s2"
      using s1 h by (rule speed_ok_horizontal)
    then have "speed_ok ?M s3"
      using assms(1) v by (intro speed_ok_vertical [of ?M s2 "the g" s3])
    then show ?thesis
      unfolding q by (rule speed_ok_update_dash)
  qed
qed

text \<open>
  C5, amended. The Player's gravity step computes \<open>vel_y + gravity * dt\<close>, in floating
  point, and then limits it to \<open>max_fall_speed\<close>, so that \<open>vel_y\<close> never exceeds
  \<open>max_fall_speed\<close>; with a non-negative \<open>max_fall_speed\<close> this also holds at the end of every
  tick of \<^verbatim>\<open>Player.update\<close> that returns, on any grid. The NPC's gravity step computes
  \<open>vel_y + gravity * dt\<close>, in floating point, and does not limit it.
\<close>

theorem gravity_then_fall_speed_limit:
  "vel_y (player_apply_gravity dt p)
     = min (fl (vel_y p + fl (gravity p * dt))) (max_fall_speed p)
   \<and> vel_y (player_apply_gravity dt p) \<le> max_fall_speed p
   \<and> vel_y (npc_apply_gravity dt n) = fl (vel_y n + fl (gravity n * dt))
   \<and> (0 \<le> max_fall_speed p \<and> player_update dt k g p = Inr q \<longrightarrow>
        vel_y q \<le> max_fall_speed p \<and> max_fall_speed q = max_fall_speed p)"
proof (intro conjI impI)
  show "vel_y (player_apply_gravity dt p)
          = min (fl (vel_y p + fl (gravity p * dt))) (max_fall_speed p)"
    by (simp add: player_apply_gravity_def Let_def min_def)
  then show "vel_y (player_apply_gravity dt p) \<le> max_fall_speed p"
    by simp
  show "vel_y (npc_apply_gravity dt n) = fl (vel_y n + fl (gravity n * dt))"
    by (simp add: npc_apply_gravity_def)
  assume a: "0 \<le> max_fall_speed p \<and> player_update dt k g p = Inr q"
  then have "speed_ok (max_fall_speed p) q"
    by (intro speed_ok_update [of p dt k g q]) simp_all
  then show "vel_y q \<le> max_fall_speed p" "max_fall_speed q = max_fall_speed p"
    by (simp_all add: speed_ok_def)
qed

theorem gravity_then_fall_speed_limit_witness:
  "0 \<le> max_fall_speed fast_player
   \<and> player_update 1 no_keys (Some open_grid) fast_player
        = Inr (fast_player\<lparr>pos_y := 500, vel_y := 500\<rparr>)
   \<and> vel_y fast_player + gravity fast_player * 1 = 1400
   \<and> vel_y (fast_player\<lparr>pos_y := 500, vel_y := 500\<rparr>) \<le> max_fall_speed fast_player"
proof -
  have a: "0 \<le> max_fall_speed fast_player"
    by code_simp
  have b: "player_update 1 no_keys (Some open_grid) fast_player
             = Inr (fast_player\<lparr>pos_y := 500, vel_y := 500\<rparr>)"
    by code_simp
  have c: "vel_y fast_player + gravity fast_player * 1 = 1400"
    by code_simp
  show ?thesis
    using gravity_then_fall_speed_limit
            [of 1 fast_player resting_npc no_keys "Some open_grid" "fast_player\<lparr>pos_y := 500, vel_y := 500\<rparr>"]
    by (simp only: a b c simp_thms)
qed

subsection \<open>Falling over a grid without solid tiles\<close>


















text \<open>
  Two ticks that the theorem covers. With \<open>dt\<close> the float nearest to 0.015, the product
  \<open>500 * dt\<close> is rounded up to 7.5 and the Player arrives at \<open>y = 902\<close>, bottom edge at 926,
  and is grounded, although the exact sum is below 926. A Player of height 64 is stopped by
  the clamp at \<open>y = 896\<close>, bottom edge at 960, which is 32 pixels from the ground level: it
  is not grounded.
\<close>

lemma rounded_step_reaches_the_ground_window:
  "pos_y edge_player + vel_y edge_player * fl (15 / 1000) + of_int (height edge_player) < 926
   \<and> fl (pos_y edge_player + fl (vel_y edge_player * fl (15 / 1000))) = 902
   \<and> player_update (fl (15 / 1000)) no_keys (Some open_grid) edge_player
        = Inr (edge_player\<lparr>pos_y := 904, vel_y := 0, on_ground := True\<rparr>)"
  by code_simp

lemma tall_player_stops_at_the_map_bottom:
  "player_update (1 / 8) no_keys (Some open_grid) tall_player = Inr (tall_player\<lparr>pos_y := 896\<rparr>)
   \<and> \<not> on_ground tall_player"
  by code_simp

subsection \<open>The solid grid\<close>

text \<open>
  C2, as stated, fails for \<^verbatim>\<open>Game.create_collision_grid\<close>, the builder that the game calls:
  it reads the layer named \<open>ground\<close> only. On a map of one column and thirty rows whose
  layer \<open>ground1\<close> has a tile in the first row and whose layer \<open>ground\<close> is empty, every cell
  of the grid is 0.
\<close>

theorem ground1_ignored_counterexample:
  "l_name empty_ground = ''ground'' \<and> l_name platform_ground1 = ''ground1''
   \<and> l_data platform_ground1 ! 0 \<noteq> 0
   \<and> create_collision_grid 1 30 [empty_ground, platform_ground1] = Inr (replicate 30 [0])"
  by code_simp

text \<open>
  On the list of layer records that \<^verbatim>\<open>load_tmx_map\<close> returns, \<^verbatim>\<open>extract_ground_layer\<close> finds
  no name and returns the grid of zeros.
\<close>

lemma extract_ground_layer_on_layer_list:
  "extract_ground_layer \<lparr>m_width = w, m_height = h, m_layers = Layer_list ls\<rparr> = Inr (zero_grid w h)"
  by (simp add: extract_ground_layer_def merge_layer_def name_in_layers_def)

lemma shaped_zero_grid: "shaped (nat w) (nat h) (zero_grid w h)"
  by (simp add: shaped_def zero_grid_def)

lemma set_solid_shaped:
  assumes "shaped W H g"
  shows "shaped W H (set_solid g y x)"
proof -
  have "length (set_solid g y x ! i) = W" if "i < H" for i
  proof (cases "i = nat y")
    case True
    then show ?thesis
      using assms that by (simp add: shaped_def set_solid_def)
  next
    case False
    then show ?thesis
      using assms that by (simp add: shaped_def set_solid_def)
  qed
  then show ?thesis
    using assms by (simp add: shaped_def set_solid_def)
qed

lemma set_solid_nth:
  assumes "shaped W H g" and "0 \<le> y" "nat y < H" "0 \<le> x" "nat x < W" and "i < H" "j < W"
  shows "set_solid g y x ! i ! j = (if i = nat y \<and> j = nat x then 1 else g ! i ! j)"
  using assms by (auto simp: shaped_def set_solid_def nth_list_update)

lemma mark_shaped: "shaped W H g \<Longrightarrow> shaped W H (mark P cells g)"
  unfolding mark_def
  by (induction cells arbitrary: g) (auto simp: set_solid_shaped)

lemma mark_nth:
  assumes "shaped W H g"
    and "\<forall>c \<in> set cells. 0 \<le> fst c \<and> nat (fst c) < H \<and> 0 \<le> snd c \<and> nat (snd c) < W"
    and "i < H" "j < W"
  shows "mark P cells g ! i ! j
           = (if \<exists>c \<in> set cells. nat (fst c) = i \<and> nat (snd c) = j \<and> P (fst c) (snd c) then 1
              else g ! i ! j)"
  using assms(1,2)
proof (induction cells arbitrary: g)
  case Nil
  show ?case by (simp add: mark_def)
next
  case (Cons c cells)
  obtain y x where c: "c = (y, x)"
    by (cases c)
  have b: "0 \<le> y" "nat y < H" "0 \<le> x" "nat x < W"
    using Cons.prems(2) by (simp_all add: c)
  let ?g = "if P y x then set_solid g y x else g"
  have sh: "shaped W H ?g"
    using Cons.prems(1) by (simp add: set_solid_shaped)
  have unfold: "mark P (c # cells) g = mark P cells ?g"
    by (simp add: mark_def c)
  have rest: "\<forall>c \<in> set cells. 0 \<le> fst c \<and> nat (fst c) < H \<and> 0 \<le> snd c \<and> nat (snd c) < W"
    using Cons.prems(2) by simp
  have g: "?g ! i ! j = (if nat y = i \<and> nat x = j \<and> P y x then 1 else g ! i ! j)"
    using set_solid_nth [OF Cons.prems(1) b assms(3,4)] by auto
  show ?case
    unfolding unfold Cons.IH [OF sh rest] g by (auto simp: c)
qed

lemma shaped_cell_grid: "shaped (nat w) (nat h) (cell_grid w h Q)"
  by (simp add: shaped_def cell_grid_def)

lemma cell_grid_nth:
  "i < nat h \<Longrightarrow> j < nat w \<Longrightarrow> cell_grid w h Q ! i ! j = (if Q i j then 1 else 0)"
  by (simp add: cell_grid_def)

lemma zero_grid_cell_grid: "zero_grid w h = cell_grid w h (\<lambda>row col. False)"
  by (simp add: zero_grid_def cell_grid_def map_replicate_const)

lemma shaped_eqI:
  assumes "shaped W H a" and "shaped W H b"
    and "\<And>i j. i < H \<Longrightarrow> j < W \<Longrightarrow> a ! i ! j = b ! i ! j"
  shows "a = b"
proof (rule nth_equalityI)
  show "length a = length b"
    using assms(1,2) by (simp add: shaped_def)
  fix i assume "i < length a"
  then have i: "i < H"
    using assms(1) by (simp add: shaped_def)
  show "a ! i = b ! i"
  proof (rule nth_equalityI)
    show "length (a ! i) = length (b ! i)"
      using assms(1,2) i by (simp add: shaped_def)
    fix j assume "j < length (a ! i)"
    then have "j < W"
      using assms(1) i by (simp add: shaped_def)
    with i show "a ! i ! j = b ! i ! j"
      by (rule assms(3))
  qed
qed

lemma set_grid_cells:
  "set (List.product (py_range 0 h) (py_range 0 w)) = {c. 0 \<le> fst c \<and> fst c < h \<and> 0 \<le> snd c \<and> snd c < w}"
  by (auto simp: set_py_range)

lemma mark_cell_grid:
  "mark P (List.product (py_range 0 h) (py_range 0 w)) (cell_grid w h Q)
     = cell_grid w h (\<lambda>row col. P (int row) (int col) \<or> Q row col)"
proof (rule shaped_eqI [of "nat w" "nat h"])
  let ?cells = "List.product (py_range 0 h) (py_range 0 w)"
  show "shaped (nat w) (nat h) (mark P ?cells (cell_grid w h Q))"
    by (intro mark_shaped shaped_cell_grid)
  show "shaped (nat w) (nat h) (cell_grid w h (\<lambda>row col. P (int row) (int col) \<or> Q row col))"
    by (rule shaped_cell_grid)
  fix i j assume i: "i < nat h" and j: "j < nat w"
  have inside: "\<forall>c \<in> set ?cells. 0 \<le> fst c \<and> nat (fst c) < nat h \<and> 0 \<le> snd c \<and> nat (snd c) < nat w"
    unfolding set_grid_cells by auto
  have "(\<exists>c \<in> set ?cells. nat (fst c) = i \<and> nat (snd c) = j \<and> P (fst c) (snd c))
          \<longleftrightarrow> P (int i) (int j)"
  proof
    assume "\<exists>c \<in> set ?cells. nat (fst c) = i \<and> nat (snd c) = j \<and> P (fst c) (snd c)"
    then obtain c where c: "0 \<le> fst c" "0 \<le> snd c" "nat (fst c) = i" "nat (snd c) = j"
      "P (fst c) (snd c)"
      unfolding set_grid_cells by auto
    have "fst c = int i" "snd c = int j"
      using c(1-4) by simp_all
    with c(5) show "P (int i) (int j)"
      by simp
  next
    assume p: "P (int i) (int j)"
    have "(int i, int j) \<in> set ?cells"
    proof -
      have "int i < h" "int j < w"
        using i j by linarith+
      then show ?thesis
        unfolding set_grid_cells by simp
    qed
    then show "\<exists>c \<in> set ?cells. nat (fst c) = i \<and> nat (snd c) = j \<and> P (fst c) (snd c)"
      using p by (intro bexI [of _ "(int i, int j)"]) simp_all
  qed
  then show "mark P ?cells (cell_grid w h Q) ! i ! j
               = cell_grid w h (\<lambda>row col. P (int row) (int col) \<or> Q row col) ! i ! j"
    using mark_nth [OF shaped_cell_grid inside i j, of P Q] i j by (simp add: cell_grid_nth)
qed

lemma covers_cell:
  assumes "covers G w h" and "0 \<le> y" "y < h" "0 \<le> x" "x < w"
  shows "py_index G y = Inr (G ! nat y) \<and> py_index (G ! nat y) x = Inr (G ! nat y ! nat x)"
proof -
  have y: "nat y < nat h" "nat h \<le> length G"
    using assms(1,2,3) by (simp_all add: covers_def)
  have "nat w \<le> length (take (nat h) G ! nat y)"
    using assms(1) y by (simp add: covers_def list_all_length)
  then have "nat w \<le> length (G ! nat y)"
    using y by simp
  then have "x < int (length (G ! nat y))"
    using assms(5) by linarith
  moreover have "y < int (length G)"
    using y assms(2) by linarith
  ultimately show ?thesis
    using assms(2,4) by (simp add: py_index_in_range)
qed

lemma merge_layer_dict:
  assumes "map_of d name = Some G" and "covers G w h"
  shows "merge_layer \<lparr>m_width = w, m_height = h, m_layers = Layer_dict d\<rparr> name grid
           = Inr (mark (\<lambda>y x. G ! nat y ! nat x \<noteq> 0)
                    (List.product (py_range 0 h) (py_range 0 w)) grid)"
proof -
  let ?md = "\<lparr>m_width = w, m_height = h, m_layers = Layer_dict d\<rparr>"
  let ?body = "\<lambda>y x grid. case layer_cell (m_layers ?md) name y x of
                          Inl e \<Rightarrow> Inl e
                        | Inr v \<Rightarrow> Inr (if v \<noteq> 0 then set_solid grid y x else grid)"
  let ?f = "\<lambda>y x grid. if G ! nat y ! nat x \<noteq> 0 then set_solid grid y x else grid"
  have cell: "?body y x g = Inr (?f y x g)"
    if "y \<in> set (py_range 0 h)" "x \<in> set (py_range 0 w)" for y x g
    using covers_cell [OF assms(2), of y x] that assms(1)
    by (simp add: set_py_range layer_cell_def)
  have inner: "for_each (py_range 0 w) (?body y) g = Inr (fold (?f y) (py_range 0 w) g)"
    if "y \<in> set (py_range 0 h)" for y g
    by (rule for_each_pure) (rule cell [OF that])
  have "for_each (py_range 0 h) (\<lambda>y. for_each (py_range 0 w) (?body y)) grid
          = Inr (fold (\<lambda>y. fold (?f y) (py_range 0 w)) (py_range 0 h) grid)"
    by (rule for_each_pure) (rule inner)
  also have "fold (\<lambda>y. fold (?f y) (py_range 0 w)) (py_range 0 h) grid
          = mark (\<lambda>y x. G ! nat y ! nat x \<noteq> 0) (List.product (py_range 0 h) (py_range 0 w)) grid"
    unfolding mark_def by (rule fold_product)
  finally show ?thesis
    using assms(1) by (simp add: merge_layer_def name_in_layers_def)
qed

lemma extract_ground_layer_union:
  assumes "map_of d ''ground'' = Some G" and "map_of d ''ground1'' = Some G1"
    and "covers G w h" and "covers G1 w h"
  shows "extract_ground_layer \<lparr>m_width = w, m_height = h, m_layers = Layer_dict d\<rparr>
           = Inr (cell_grid w h (\<lambda>row col. G ! row ! col \<noteq> 0 \<or> G1 ! row ! col \<noteq> 0))"
proof -
  have "(\<lambda>row col. G1 ! nat (int row) ! nat (int col) \<noteq> 0
            \<or> G ! nat (int row) ! nat (int col) \<noteq> 0 \<or> False)
          = (\<lambda>row col. G ! row ! col \<noteq> 0 \<or> G1 ! row ! col \<noteq> 0)"
    by (auto simp: fun_eq_iff)
  then show ?thesis
    by (simp add: extract_ground_layer_def merge_layer_dict [OF assms(1,3)]
        merge_layer_dict [OF assms(2,4)] zero_grid_cell_grid mark_cell_grid)
qed

lemma print_samples_ok:
  assumes "shaped W H grid" and "0 \<le> gy" and "nat gy < H"
  shows "print_samples grid gy = Inr ()"
proof -
  have len: "length grid = H" and rows: "\<And>i. i < H \<Longrightarrow> length (grid ! i) = W"
    using assms(1) by (simp_all add: shaped_def)
  have H: "0 < H"
    using assms(3) by simp
  have row0: "py_index grid 0 = Inr (grid ! 0)"
    using H len by (simp add: py_index_def)
  have rowg: "py_index grid gy = Inr (grid ! nat gy)"
    using assms(2,3) len by (simp add: py_index_in_range)
  have body: "(case py_index grid gy of
                 Inl e \<Rightarrow> Inl e
               | Inr row \<Rightarrow> (case py_index row x of Inl e \<Rightarrow> Inl e | Inr _ \<Rightarrow> Inr u)) = Inr ((\<lambda>x u. u) x u)"
    if "x \<in> set (py_range 0 (min 10 (int (length (grid ! 0)))))" for x and u :: unit
  proof -
    have "0 \<le> x" "x < int W"
      using that rows [OF H] by (simp_all add: set_py_range)
    then have "py_index (grid ! nat gy) x = Inr (grid ! nat gy ! nat x)"
      using rows [OF assms(3)] by (simp add: py_index_in_range)
    then show ?thesis
      by (simp add: rowg)
  qed
  have "for_each (py_range 0 (min 10 (int (length (grid ! 0)))))
          (\<lambda>x u. case py_index grid gy of
                     Inl e \<Rightarrow> Inl e
                   | Inr row \<Rightarrow> (case py_index row x of Inl e \<Rightarrow> Inl e | Inr _ \<Rightarrow> Inr u)) ()
          = Inr (fold (\<lambda>x u. u) (py_range 0 (min 10 (int (length (grid ! 0))))) ())"
    by (rule for_each_pure) (rule body)
  then show ?thesis
    by (simp add: print_samples_def row0)
qed

lemma create_collision_grid_ground_only:
  assumes "find (\<lambda>l. l_name l = ''ground'') ls = Some L" and "0 \<le> l_width L" and "30 \<le> h"
  shows "create_collision_grid w h ls
           = Inr (cell_grid w h (\<lambda>row col.
                    int row * l_width L + int col < int (length (l_data L))
                    \<and> l_data L ! nat (int row * l_width L + int col) \<noteq> 0))"
proof -
  let ?P = "\<lambda>y x. y * l_width L + x < int (length (l_data L))
                  \<and> l_data L ! nat (y * l_width L + x) \<noteq> 0"
  let ?body = "\<lambda>y x grid.
                 let index = y * l_width L + x
                 in if index < int (length (l_data L)) then
                      (case py_index (l_data L) index of
                         Inl e \<Rightarrow> Inl e
                       | Inr gid \<Rightarrow> Inr (if gid \<noteq> 0 then set_solid grid y x else grid))
                    else Inr grid"
  let ?f = "\<lambda>y x grid. if ?P y x then set_solid grid y x else grid"
  let ?result = "cell_grid w h (\<lambda>row col. ?P (int row) (int col))"
  have cell: "?body y x g = Inr (?f y x g)"
    if "y \<in> set (py_range 0 h)" "x \<in> set (py_range 0 w)" for y x g
  proof -
    have "0 \<le> y * l_width L + x"
      using that assms(2) by (simp add: set_py_range)
    then show ?thesis
      by (simp add: Let_def py_index_in_range)
  qed
  have inner: "for_each (py_range 0 w) (?body y) g = Inr (fold (?f y) (py_range 0 w) g)"
    if "y \<in> set (py_range 0 h)" for y g
    by (rule for_each_pure) (rule cell [OF that])
  have "for_each (py_range 0 h) (\<lambda>y. for_each (py_range 0 w) (?body y)) (zero_grid w h)
          = Inr (fold (\<lambda>y. fold (?f y) (py_range 0 w)) (py_range 0 h) (zero_grid w h))"
    by (rule for_each_pure) (rule inner)
  also have "fold (\<lambda>y. fold (?f y) (py_range 0 w)) (py_range 0 h) (zero_grid w h)
          = mark ?P (List.product (py_range 0 h) (py_range 0 w)) (zero_grid w h)"
    unfolding mark_def by (rule fold_product)
  also have "\<dots> = ?result"
    by (simp add: zero_grid_cell_grid mark_cell_grid)
  finally have loops:
    "for_each (py_range 0 h) (\<lambda>y. for_each (py_range 0 w) (?body y)) (zero_grid w h) = Inr ?result" .
  have sh: "shaped (nat w) (nat h) ?result"
    by (rule shaped_cell_grid)
  have "0 < length ?result"
    using assms(3) by (simp add: cell_grid_def)
  then have first: "py_index ?result 0 = Inr (?result ! 0)"
    by (simp add: py_index_def)
  have p25: "print_samples ?result 25 = Inr ()"
    using assms(3) by (intro print_samples_ok [OF sh]) simp_all
  have p29: "print_samples ?result 29 = Inr ()"
    using assms(3) by (intro print_samples_ok [OF sh]) simp_all
  show ?thesis
    unfolding create_collision_grid_def assms(1) option.case loops sum.case first p25 p29 ..
qed

text \<open>
  C2, amended. \<^verbatim>\<open>extract_ground_layer\<close>, given the layers as a dictionary from names to
  two-dimensional arrays that holds \<open>ground\<close> and \<open>ground1\<close>, both covering the size of the
  map, returns the grid whose cell (row, col) is 1 if and only if at least one of the two
  layers has a non-zero tile identifier at that cell, and 0 otherwise.
  \<^verbatim>\<open>Game.create_collision_grid\<close>, on a map of at least thirty rows, returns the grid whose
  cell (row, col) is 1 if and only if the first layer named \<open>ground\<close>, of non-negative
  width, has a non-zero identifier at index \<open>row * layer_width + col\<close> of its data, and 0
  otherwise; no other layer is read.
\<close>

theorem solid_grid_from_layers:
  assumes "map_of d ''ground'' = Some G" and "map_of d ''ground1'' = Some G1"
    and "covers G w h" and "covers G1 w h"
    and "find (\<lambda>l. l_name l = ''ground'') ls = Some L" and "0 \<le> l_width L" and "30 \<le> h'"
  shows "extract_ground_layer \<lparr>m_width = w, m_height = h, m_layers = Layer_dict d\<rparr>
           = Inr (cell_grid w h (\<lambda>row col. G ! row ! col \<noteq> 0 \<or> G1 ! row ! col \<noteq> 0))
       \<and> create_collision_grid w' h' ls
           = Inr (cell_grid w' h' (\<lambda>row col.
                    int row * l_width L + int col < int (length (l_data L))
                    \<and> l_data L ! nat (int row * l_width L + int col) \<noteq> 0))"
  using extract_ground_layer_union [OF assms(1-4)] create_collision_grid_ground_only [OF assms(5-7)]
  by (rule conjI)

theorem solid_grid_from_layers_witness:
  "map_of layer_dict ''ground'' = Some [[0, 3, 0]] \<and> map_of layer_dict ''ground1'' = Some [[7, 0, 0]]
   \<and> covers [[0, 3, 0]] 3 1 \<and> covers [[7, 0, 0]] 3 1
   \<and> find (\<lambda>l. l_name l = ''ground'') [platform_ground1, bottom_ground] = Some bottom_ground
   \<and> 0 \<le> l_width bottom_ground
   \<and> extract_ground_layer \<lparr>m_width = 3, m_height = 1, m_layers = Layer_dict layer_dict\<rparr>
        = Inr [[1, 1, 0]]
   \<and> create_collision_grid 1 30 [platform_ground1, bottom_ground] = Inr ground_grid"
proof -
  have h: "map_of layer_dict ''ground'' = Some [[0, 3, 0]]"
    "map_of layer_dict ''ground1'' = Some [[7, 0, 0]]"
    "covers [[0, 3, 0]] 3 1" "covers [[7, 0, 0]] 3 1"
    "find (\<lambda>l. l_name l = ''ground'') [platform_ground1, bottom_ground] = Some bottom_ground"
    "0 \<le> l_width bottom_ground" "(30 :: int) \<le> 30"
    by code_simp+
  have a: "cell_grid 3 1 (\<lambda>row col. [[0, 3, 0]] ! row ! col \<noteq> (0 :: int) \<or> [[7, 0, 0]] ! row ! col \<noteq> (0 :: int))
             = [[1, 1, 0]]"
    by code_simp
  have b: "cell_grid 1 30 (\<lambda>row col.
              int row * l_width bottom_ground + int col < int (length (l_data bottom_ground))
              \<and> l_data bottom_ground ! nat (int row * l_width bottom_ground + int col) \<noteq> 0)
             = ground_grid"
    by code_simp
  show ?thesis
    using solid_grid_from_layers [OF h, of 1]
    by (simp only: h a b simp_thms)
qed

end
